theory Spec2Isabelle
  imports Main "HOL-Library.Char_ord" "HOL-Library.List_Lexorder" "HOL-Library.Product_Lexorder"
begin

section \<open>Calendar dates (dbUtils.js: normalizeDate, getDateRange)\<close>

text \<open>
  A JavaScript \<open>Date\<close> is its time value: milliseconds since the epoch, an integer.
  \<open>setUTCHours(0, 0, 0, 0)\<close> moves a time value down to midnight UTC of its day.
\<close>

type_synonym date = int

definition msPerDay :: int where
  "msPerDay = 1000 * 60 * 60 * 24"

definition normalizeDate :: "date \<Rightarrow> date" where
  "normalizeDate d = d - d mod msPerDay"

text \<open>
  \<open>current.setDate(current.getDate() + 1)\<close> works in the local time zone of the process:
  it moves \<open>current\<close> to the same clock time on the next local calendar day. A zone is
  given by the length of that step at each instant: 24 hours, except across a change of
  the zone's offset (23 or 25 hours over a daylight-saving change). The step always
  moves forward. \<open>utc\<close> is the zone of a process that runs in UTC.
\<close>

typedef zone = "{f :: date \<Rightarrow> int. \<forall>t. 0 < f t}"
  morphisms day_length Abs_zone
  by (rule exI[of _ "\<lambda>t. 1"]) simp

setup_lifting type_definition_zone

lift_definition utc :: zone is "\<lambda>t. msPerDay"
  by (simp add: msPerDay_def)

definition setDate_next :: "zone \<Rightarrow> date \<Rightarrow> date" where
  "setDate_next z t = t + day_length z t"

function getDateRange_loop :: "zone \<Rightarrow> date \<Rightarrow> date \<Rightarrow> date list" where
  "getDateRange_loop z current stop =
     (if current \<le> stop then current # getDateRange_loop z (setDate_next z current) stop else [])"
  by pat_completeness auto
termination
proof (relation "measure (\<lambda>(z, c, e). nat (e - c + 1))")
  show "wf (measure (\<lambda>(z, c, e). nat (e - c + 1)))" by simp
next
  fix z :: zone and current stop :: date
  assume "current \<le> stop"
  moreover have "0 < day_length z current" using day_length[of z] by simp
  ultimately show "((z, setDate_next z current, stop), (z, current, stop))
                     \<in> measure (\<lambda>(z, c, e). nat (e - c + 1))"
    by (simp add: setDate_next_def)
qed

declare getDateRange_loop.simps [simp del]

definition getDateRange :: "zone \<Rightarrow> date \<Rightarrow> date \<Rightarrow> date list" where
  "getDateRange z startDate endDate =
     getDateRange_loop z (normalizeDate startDate) (normalizeDate endDate)"

section \<open>The availability collection (dbUtils.js: AvailabilitySchema)\<close>

record availability =
  a_room_id :: string
  a_date :: date
  total_units :: int
  available_units :: int

text \<open>
  The records carry the fields the properties speak of; the \<open>created_at\<close> and
  \<open>updated_at\<close> timestamps that Mongoose maintains are left out.

  \<open>Availability.updateOne({room_id, date, available_units: {$gte: qty}},
  {$inc: {available_units: -qty}})\<close>: the first document that matches the filter is
  updated. With the schema's \<open>timestamps\<close> option the update also sets
  \<open>updated_at\<close>, so a matched document is always modified: \<open>modifiedCount\<close> is 1
  when a document matches and 0 when none does.
\<close>

fun updateOne_dec :: "string \<Rightarrow> date \<Rightarrow> int \<Rightarrow> availability list \<Rightarrow> nat \<times> availability list" where
  "updateOne_dec rid d qty [] = (0, [])"
| "updateOne_dec rid d qty (a # as) =
     (if a_room_id a = rid \<and> a_date a = d \<and> qty \<le> available_units a
      then (1, a\<lparr>available_units := available_units a + (- qty)\<rparr> # as)
      else (case updateOne_dec rid d qty as of (n, as') \<Rightarrow> (n, a # as')))"

text \<open>The day loop of the booking handler: stops at the first date whose update modified nothing.\<close>

fun day_loop :: "string \<Rightarrow> int \<Rightarrow> date list \<Rightarrow> availability list \<Rightarrow> date option \<times> availability list" where
  "day_loop rid qty [] avs = (None, avs)"
| "day_loop rid qty (d # ds) avs =
     (case updateOne_dec rid d qty avs of
        (n, avs') \<Rightarrow> if n = 0 then (Some d, avs') else day_loop rid qty ds avs')"

section \<open>Rooms and bookings (dbUtils.js: RoomSchema, BookingSchema)\<close>

record room =
  r_id :: string
  r_name :: string
  r_description :: string
  r_location :: string
  r_floor :: int
  r_capacity :: int
  price_cents :: int
  r_amenities :: "string list"
  r_images :: "string list"
  is_active :: bool

datatype status = Pending | Confirmed | Cancelled | Completed

text \<open>
  JavaScript numbers. The prices are integers held in IEEE 754 doubles: an integer is
  kept as it is up to \<open>2 ^ 53\<close> and rounded to 53 significant bits (to nearest, ties to
  even) above, and a magnitude that rounds to \<open>2 ^ 1024\<close> or more is infinite. A product
  is the rounded exact product.
\<close>

datatype number = Fin int | PosInf | NegInf | NaN

fun bit_length :: "nat \<Rightarrow> nat" where
  "bit_length n = (if n = 0 then 0 else Suc (bit_length (n div 2)))"

declare bit_length.simps [simp del]

definition round_nat :: "nat \<Rightarrow> nat" where
  "round_nat n =
     (if n < 2 ^ 53 then n
      else (let e = bit_length n - 53; q = n div 2 ^ e; r = n mod 2 ^ e
            in (if 2 ^ e < 2 * r \<or> (2 ^ e = 2 * r \<and> odd q) then q + 1 else q) * 2 ^ e))"

definition to_double :: "int \<Rightarrow> number" where
  "to_double i =
     (let m = round_nat (nat \<bar>i\<bar>)
      in if 2 ^ 1024 \<le> m then (if i < 0 then NegInf else PosInf)
         else Fin (if i < 0 then - int m else int m))"

fun js_mul :: "number \<Rightarrow> number \<Rightarrow> number" where
  "js_mul (Fin a) (Fin b) = to_double (a * b)"
| "js_mul NaN y = NaN"
| "js_mul x NaN = NaN"
| "js_mul (Fin a) PosInf = (if a = 0 then NaN else if 0 < a then PosInf else NegInf)"
| "js_mul (Fin a) NegInf = (if a = 0 then NaN else if 0 < a then NegInf else PosInf)"
| "js_mul PosInf (Fin b) = (if b = 0 then NaN else if 0 < b then PosInf else NegInf)"
| "js_mul NegInf (Fin b) = (if b = 0 then NaN else if 0 < b then NegInf else PosInf)"
| "js_mul PosInf PosInf = PosInf"
| "js_mul PosInf NegInf = NegInf"
| "js_mul NegInf PosInf = NegInf"
| "js_mul NegInf NegInf = PosInf"

record booking =
  b_id :: string
  b_user_id :: string
  b_room_id :: string
  start_date :: date
  end_date :: date
  quantity :: int
  total_price_cents :: number
  status :: status
  cancellation_reason :: "string option"
  cancelled_at :: "date option"
  b_notes :: "string option"

datatype exn = ValidationError "string list" | CastError | Error string

text \<open>
  The \<open>trim: true\<close> setter of the string fields, on ASCII white space; \<open>maxlength\<close>
  counts the characters of the trimmed string.
\<close>

definition is_space :: "char \<Rightarrow> bool" where
  "is_space c = (c \<in> set [CHR '' '', CHR 0x09, CHR 0x0A, CHR 0x0B, CHR 0x0C, CHR 0x0D])"

definition js_trim :: "string \<Rightarrow> string" where
  "js_trim s = rev (dropWhile is_space (rev (dropWhile is_space s)))"

text \<open>
  What \<open>Booking.create\<close> runs before it writes a new booking: the schema validators,
  whose failures are collected, one message for each failing path, into a
  \<open>ValidationError\<close>; then the \<open>pre('save')\<close> hook, which throws a plain \<open>Error\<close>
  unless \<open>end_date\<close> is after \<open>start_date\<close>. On \<open>total_price_cents\<close> the cast to a
  number refuses \<open>NaN\<close>, \<open>min: 0\<close> refuses a negative value and \<open>Number.isInteger\<close>
  refuses an infinite one.
\<close>

definition too_long :: "nat \<Rightarrow> string option \<Rightarrow> bool" where
  "too_long n s = (case s of None \<Rightarrow> False | Some t \<Rightarrow> n < length t)"

definition validate_quantity :: "booking \<Rightarrow> string list" where
  "validate_quantity b =
     (if quantity b < 1 then [''Quantity must be at least 1'']
      else if 100 < quantity b then [''Quantity cannot exceed 100'']
      else [])"

definition validate_total_price :: "booking \<Rightarrow> string list" where
  "validate_total_price b =
     (case total_price_cents b of
        Fin p \<Rightarrow> if p < 0 then [''Price cannot be negative''] else []
      | PosInf \<Rightarrow> [''Price must be an integer (cents)'']
      | NegInf \<Rightarrow> [''Price cannot be negative'']
      | NaN \<Rightarrow> [''Cast to Number failed for value NaN at path total_price_cents''])"

definition validate_cancellation_reason :: "booking \<Rightarrow> string list" where
  "validate_cancellation_reason b =
     (if too_long 500 (cancellation_reason b)
      then [''Cancellation reason cannot exceed 500 characters''] else [])"

definition validate_notes :: "booking \<Rightarrow> string list" where
  "validate_notes b =
     (if too_long 1000 (b_notes b) then [''Notes cannot exceed 1000 characters''] else [])"

definition booking_validate :: "booking \<Rightarrow> string list" where
  "booking_validate b =
     validate_quantity b @ validate_total_price b @ validate_cancellation_reason b
     @ validate_notes b"

definition booking_pre_save :: "booking \<Rightarrow> exn option" where
  "booking_pre_save b =
     (if end_date b \<le> start_date b then Some (Error ''End date must be after start date'') else None)"

definition booking_save_checks :: "booking \<Rightarrow> exn option" where
  "booking_save_checks b =
     (if booking_validate b \<noteq> [] then Some (ValidationError (booking_validate b))
      else booking_pre_save b)"

text \<open>
  The \<open>nights\<close> virtual of a booking, \<open>Math.ceil((end_date - start_date) / day)\<close>, which
  \<open>toPublicJSON\<close> returns beside the price.
\<close>

definition nights :: "booking \<Rightarrow> int" where
  "nights b = - ((- (end_date b - start_date b)) div msPerDay)"

section \<open>Redis: locks and idempotency keys (redis/index.js)\<close>

text \<open>
  A key holds a value and the time at which it expires; a read at time \<open>now\<close> sees the
  key while it has not expired.
\<close>

type_synonym redis = "string \<rightharpoonup> (string \<times> int)"

definition redis_get :: "int \<Rightarrow> redis \<Rightarrow> string \<Rightarrow> string option" where
  "redis_get now r k =
     (case r k of None \<Rightarrow> None | Some (v, expires) \<Rightarrow> if now < expires then Some v else None)"

definition getIdempotencyKey :: "int \<Rightarrow> redis \<Rightarrow> string \<Rightarrow> string option" where
  "getIdempotencyKey now r key = redis_get now r (''idem:'' @ key)"

definition setIdempotencyKey :: "int \<Rightarrow> redis \<Rightarrow> string \<Rightarrow> string \<Rightarrow> int \<Rightarrow> redis" where
  "setIdempotencyKey now r key v ttl = r(''idem:'' @ key \<mapsto> (v, now + ttl * 1000))"

text \<open>\<open>SET lockKey token PX timeout NX\<close>: the reply is null when the key exists.\<close>

definition acquireLock :: "int \<Rightarrow> redis \<Rightarrow> string \<Rightarrow> string \<Rightarrow> int \<Rightarrow> bool \<times> redis" where
  "acquireLock now r lockKey token timeout =
     (case redis_get now r lockKey of
        None \<Rightarrow> (True, r(lockKey \<mapsto> (token, now + timeout)))
      | Some v \<Rightarrow> (False, r))"

text \<open>
  \<open>releaseLock\<close> is two commands: a \<open>GET\<close>, whose reply the function awaits, and then,
  if the reply is the caller's token, a \<open>DEL\<close>. Redis may serve other clients between
  the two: \<open>between\<close> is what their commands do to the store (the identity when none
  arrives).
\<close>

definition releaseLock :: "int \<Rightarrow> (redis \<Rightarrow> redis) \<Rightarrow> redis \<Rightarrow> string \<Rightarrow> string \<Rightarrow> redis" where
  "releaseLock now between r lockKey token =
     (let currentToken = redis_get now r lockKey;
          r' = between r
      in if currentToken = Some token then r'(lockKey := None) else r')"

section \<open>The booking route (api.js: POST /api/v1/booking)\<close>

record state =
  rooms :: "room list"
  availabilities :: "availability list"
  bookings :: "booking list"
  redis :: redis

text \<open>
  \<open>config.json\<close>, the flag \<open>serverInfo.transactionsSupported\<close> that \<open>connectDB\<close>
  sets at start-up, and the time zone of the process.
\<close>

record config =
  lockTimeout :: int
  idempotencyTTL :: int
  transactionsSupported :: bool
  tz :: zone

text \<open>
  What a request takes from its environment: the local midnight of the current day
  (\<open>now.setHours(0, 0, 0, 0)\<close>), the clock when the handler reads the idempotency key and
  takes the lock, the clock when it stores the idempotency key and releases the lock, the
  \<open>uuidv4()\<close> token and the \<open>_id\<close> the database gives the new booking.
\<close>

record env =
  today :: date
  t_in :: int
  t_out :: int
  token :: string
  new_id :: string

text \<open>
  A request that has passed \<open>auth\<close> and the JSON-schema validation: the dates are the
  time values of \<open>new Date(start_date)\<close> and \<open>new Date(end_date)\<close>.
\<close>

record booking_req =
  q_room_id :: string
  q_start_date :: date
  q_end_date :: date
  q_quantity :: "int option"
  q_notes :: "string option"
  q_contact_email :: "string option"
  idempotency_key :: "string option"
  user_id :: string
  user_email :: "string option"

datatype response =
    Ok_idempotent string
  | Created booking
  | Bad_request string
  | Validation_failed "string list"
  | Forbidden
  | Not_found
  | Conflict date
  | Locked
  | Server_error

text \<open>\<open>x || null\<close> on a string that may be missing: the empty string is falsy.\<close>

definition or_null :: "string option \<Rightarrow> string option" where
  "or_null x = (case x of None \<Rightarrow> None | Some s \<Rightarrow> if s = [] then None else Some s)"

text \<open>\<open>parseInt(quantity || 1, 10)\<close> on an integer that may be missing: zero is falsy.\<close>

definition parse_qty :: "int option \<Rightarrow> int" where
  "parse_qty q = (case q of None \<Rightarrow> 1 | Some n \<Rightarrow> if n = 0 then 1 else n)"

definition lower_char :: "char \<Rightarrow> char" where
  "lower_char c = (if CHR ''A'' \<le> c \<and> c \<le> CHR ''Z'' then char_of (of_char c + (32::nat)) else c)"

definition toLowerCase :: "string \<Rightarrow> string" where
  "toLowerCase s = map lower_char s"

text \<open>\<open>String(userEmail)\<close>: \<open>null\<close> becomes the string \<open>null\<close>.\<close>

definition String_of :: "string option \<Rightarrow> string" where
  "String_of x = (case x of None \<Rightarrow> ''null'' | Some s \<Rightarrow> s)"

definition validateDateRange :: "date \<Rightarrow> booking_req \<Rightarrow> response option" where
  "validateDateRange now req =
     (if q_start_date req < now then Some (Bad_request ''Start date cannot be in the past'')
      else if q_end_date req < q_start_date req
        then Some (Bad_request ''End date must be after start date'')
      else if 365 * msPerDay < q_end_date req - q_start_date req
        then Some (Bad_request ''Booking period cannot exceed 365 days'')
      else None)"

definition check_quantity :: "booking_req \<Rightarrow> response option" where
  "check_quantity req =
     (let qty = parse_qty (q_quantity req) in
      if qty < 1 then Some (Bad_request ''Quantity must be at least 1'')
      else if 100 < qty then Some (Bad_request ''Quantity cannot exceed 100'')
      else None)"

text \<open>
  The handler as one request serves it, with no command of another request in between
  (the schedules in which the requests on a room run one after the other). How the
  \<open>try\<close> block ends: by a \<open>return\<close>, by a throw, or with the booking written.
\<close>

datatype outcome = Returned response | Threw exn | Committed booking

definition booking_try :: "config \<Rightarrow> env \<Rightarrow> booking_req \<Rightarrow> state \<Rightarrow> outcome \<times> state" where
  "booking_try cfg e req s =
     (let qty = parse_qty (q_quantity req);
          userEmail = or_null (user_email req);
          contactEmail = or_null (q_contact_email req)
      in if contactEmail \<noteq> None \<and> toLowerCase (String_of contactEmail) \<noteq> toLowerCase (String_of userEmail)
         then (Returned Forbidden, s)
         else
           (case find (\<lambda>r. r_id r = q_room_id req \<and> is_active r) (rooms s) of
              None \<Rightarrow> (Returned Not_found, s)
            | Some room \<Rightarrow>
                (let startDate = normalizeDate (q_start_date req);
                     endDate = normalizeDate (q_end_date req);
                     days = getDateRange (tz cfg) startDate endDate;
                     nights = int (length days);
                     totalPrice = js_mul (js_mul (to_double (price_cents room)) (to_double nights))
                                    (to_double qty)
                 in case day_loop (q_room_id req) qty days (availabilities s) of
                      (Some d, avs) \<Rightarrow> (Returned (Conflict d), s\<lparr>availabilities := avs\<rparr>)
                    | (None, avs) \<Rightarrow>
                        (let doc = \<lparr>b_id = new_id e, b_user_id = user_id req,
                                    b_room_id = q_room_id req, start_date = startDate,
                                    end_date = endDate, quantity = qty,
                                    total_price_cents = totalPrice, status = Confirmed,
                                    cancellation_reason = None, cancelled_at = None,
                                    b_notes = map_option js_trim (or_null (q_notes req))\<rparr>
                         in case booking_save_checks doc of
                              Some x \<Rightarrow> (Threw x, s\<lparr>availabilities := avs\<rparr>)
                            | None \<Rightarrow>
                                (Committed doc,
                                 s\<lparr>availabilities := avs, bookings := bookings s @ [doc]\<rparr>)))))"

text \<open>
  \<open>session.abortTransaction()\<close> undoes what the transaction wrote to the database; with
  no session (\<open>transactionsSupported\<close> false) every \<open>if (session)\<close> is skipped.
\<close>

definition abortTransaction :: "config \<Rightarrow> state \<Rightarrow> state \<Rightarrow> state" where
  "abortTransaction cfg before s =
     (if transactionsSupported cfg
      then s\<lparr>availabilities := availabilities before, bookings := bookings before\<rparr>
      else s)"

definition catch_response :: "exn \<Rightarrow> response" where
  "catch_response x =
     (case x of
        ValidationError ms \<Rightarrow> Validation_failed ms
      | CastError \<Rightarrow> Bad_request ''Invalid room ID format''
      | Error m \<Rightarrow> Server_error)"

definition booking_handler :: "config \<Rightarrow> env \<Rightarrow> booking_req \<Rightarrow> state \<Rightarrow> response \<times> state" where
  "booking_handler cfg e req s =
     (let idemKey = or_null (idempotency_key req);
          prev = (case idemKey of None \<Rightarrow> None
                  | Some k \<Rightarrow> or_null (getIdempotencyKey (t_in e) (redis s) k))
      in case prev of
           Some p \<Rightarrow> (Ok_idempotent p, s)
         | None \<Rightarrow>
             (let lockKey = ''lock:room:'' @ q_room_id req
              in case acquireLock (t_in e) (redis s) lockKey (token e) (lockTimeout cfg) of
                   (False, r) \<Rightarrow> (Locked, s)
                 | (True, r) \<Rightarrow>
                     (let s1 = s\<lparr>redis := r\<rparr>;
                          (resp, s3) =
                            (case booking_try cfg e req s1 of
                               (Returned x, s2) \<Rightarrow> (x, abortTransaction cfg s1 s2)
                             | (Threw x, s2) \<Rightarrow> (catch_response x, abortTransaction cfg s1 s2)
                             | (Committed doc, s2) \<Rightarrow>
                                 (Created doc,
                                  case idemKey of
                                    None \<Rightarrow> s2
                                  | Some k \<Rightarrow>
                                      s2\<lparr>redis := setIdempotencyKey (t_out e) (redis s2) k
                                                     (b_id doc) (idempotencyTTL cfg)\<rparr>))
                      in (resp, s3\<lparr>redis := releaseLock (t_out e) (\<lambda>r. r) (redis s3) lockKey
                                  (token e)\<rparr>))))"

definition post_booking :: "config \<Rightarrow> env \<Rightarrow> booking_req \<Rightarrow> state \<Rightarrow> response \<times> state" where
  "post_booking cfg e req s =
     (case validateDateRange (today e) req of
        Some r \<Rightarrow> (r, s)
      | None \<Rightarrow>
          (case check_quantity req of
             Some r \<Rightarrow> (r, s)
           | None \<Rightarrow> booking_handler cfg e req s))"

section \<open>Cancellation (dbUtils.js: BookingSchema.methods.cancel)\<close>

text \<open>
  \<open>save\<close> of a loaded document validates the paths that were modified, runs the
  \<open>pre('save')\<close> hook and writes the document over the stored one with its \<open>_id\<close>.
\<close>

fun save_doc :: "booking \<Rightarrow> booking list \<Rightarrow> booking list" where
  "save_doc b [] = []"
| "save_doc b (x # xs) = (if b_id x = b_id b then b # xs else x # save_doc b xs)"

definition cancel :: "string option \<Rightarrow> date \<Rightarrow> booking \<Rightarrow> state \<Rightarrow> (exn + booking) \<times> state" where
  "cancel reason now b s =
     (if status b = Cancelled then (Inl (Error ''Booking is already cancelled''), s)
      else
        (let b' = b\<lparr>status := Cancelled, cancellation_reason := map_option js_trim reason,
                     cancelled_at := Some now\<rparr>
         in if validate_cancellation_reason b' \<noteq> []
            then (Inl (ValidationError (validate_cancellation_reason b')), s)
            else
              (case booking_pre_save b' of
                 Some x \<Rightarrow> (Inl x, s)
               | None \<Rightarrow> (Inr b', s\<lparr>bookings := save_doc b' (bookings s)\<rparr>))))"

section \<open>Room search (api.js: GET /api/v1/rooms/search)\<close>

record search_row =
  sr_id :: string
  sr_name :: string
  sr_description :: string
  sr_location :: string
  sr_floor :: int
  sr_capacity :: int
  sr_price_cents :: int
  sr_amenities :: "string list"
  sr_images :: "string list"
  sr_available_units :: int
  sr_free_units :: int
  sr_available_days :: nat

definition validateSearchDateRange :: "date \<Rightarrow> date \<Rightarrow> response option" where
  "validateSearchDateRange startQ endQ =
     (if endQ < startQ then Some (Bad_request ''End date must be after start date'')
      else if 365 * msPerDay < endQ - startQ
        then Some (Bad_request ''Search period cannot exceed 365 days'')
      else None)"

text \<open>The stages of the aggregation pipeline, in the order of the source.\<close>

definition match_range :: "date \<Rightarrow> date \<Rightarrow> availability list \<Rightarrow> availability list" where
  "match_range startDate endDate avs =
     filter (\<lambda>a. startDate \<le> a_date a \<and> a_date a \<le> endDate \<and> 0 < available_units a) avs"

definition group_by_room :: "availability list \<Rightarrow> (string \<times> int \<times> nat) list" where
  "group_by_room avs =
     map (\<lambda>rid. (rid,
                 min_list (map available_units (filter (\<lambda>a. a_room_id a = rid) avs)),
                 length (filter (\<lambda>a. a_room_id a = rid) avs)))
         (remdups (map a_room_id avs))"

definition lookup_unwind :: "room list \<Rightarrow> (string \<times> int \<times> nat) list \<Rightarrow> (room \<times> int \<times> nat) list" where
  "lookup_unwind rs gs =
     concat (map (\<lambda>(rid, m, n). map (\<lambda>r. (r, m, n)) (filter (\<lambda>r. r_id r = rid) rs)) gs)"

definition project :: "room \<times> int \<times> nat \<Rightarrow> search_row" where
  "project x =
     (case x of (r, m, n) \<Rightarrow>
        \<lparr>sr_id = r_id r, sr_name = r_name r, sr_description = r_description r,
         sr_location = r_location r, sr_floor = r_floor r, sr_capacity = r_capacity r,
         sr_price_cents = price_cents r, sr_amenities = r_amenities r, sr_images = r_images r,
         sr_available_units = m, sr_free_units = m, sr_available_days = n\<rparr>)"

definition search_rooms :: "date \<Rightarrow> date \<Rightarrow> state \<Rightarrow> search_row list" where
  "search_rooms startQ endQ s =
     (let startDate = normalizeDate startQ;
          endDate = normalizeDate endQ;
          matched = match_range startDate endDate (availabilities s);
          grouped = filter (\<lambda>(rid, m, n). 0 < m) (group_by_room matched);
          joined = filter (\<lambda>(r, m, n). is_active r) (lookup_unwind (rooms s) grouped)
      in sort_key (\<lambda>row. (sr_location row, sr_name row)) (map project joined))"

definition get_rooms_search :: "date \<Rightarrow> date \<Rightarrow> state \<Rightarrow> response + search_row list" where
  "get_rooms_search startQ endQ s =
     (case validateSearchDateRange startQ endQ of
        Some r \<Rightarrow> Inl r
      | None \<Rightarrow> Inr (search_rooms startQ endQ s))"

section \<open>Predicates used to state the properties\<close>

text \<open>
  The unique index \<open>{room_id: 1, date: 1}\<close> of the availability collection, the bounds
  the schema gives \<open>available_units\<close>, and the effect of decrementing the records of a
  room on a set of dates.
\<close>

definition a_key :: "availability \<Rightarrow> string \<times> date" where
  "a_key a = (a_room_id a, a_date a)"

definition unique_keys :: "availability list \<Rightarrow> bool" where
  "unique_keys avs = distinct (map a_key avs)"

definition decrement :: "int \<Rightarrow> availability \<Rightarrow> availability" where
  "decrement qty a = a\<lparr>available_units := available_units a - qty\<rparr>"

definition units_ok :: "availability list \<Rightarrow> bool" where
  "units_ok avs = (\<forall>a \<in> set avs. 0 \<le> available_units a \<and> available_units a \<le> total_units a)"

definition dec_days :: "string \<Rightarrow> int \<Rightarrow> date set \<Rightarrow> availability \<Rightarrow> availability" where
  "dec_days rid qty D a = (if a_room_id a = rid \<and> a_date a \<in> D then decrement qty a else a)"

definition has_units :: "string \<Rightarrow> date \<Rightarrow> int \<Rightarrow> availability list \<Rightarrow> bool" where
  "has_units rid d qty avs = (\<exists>a \<in> set avs. a_key a = (rid, d) \<and> qty \<le> available_units a)"

text \<open>
  The records the search looks at for one room: those of the room in the queried range
  that still have units.
\<close>

definition positive_days :: "date \<Rightarrow> date \<Rightarrow> string \<Rightarrow> availability list \<Rightarrow> availability list" where
  "positive_days startQ endQ rid avs =
     filter (\<lambda>a. a_room_id a = rid \<and> normalizeDate startQ \<le> a_date a
                 \<and> a_date a \<le> normalizeDate endQ \<and> 0 < available_units a) avs"

text \<open>
  What lets a request through to the lock: no stored answer under its idempotency key,
  and a contact e-mail that is absent or is the user's.
\<close>

definition stored_answer :: "env \<Rightarrow> booking_req \<Rightarrow> state \<Rightarrow> string option" where
  "stored_answer e req s =
     (case or_null (idempotency_key req) of
        None \<Rightarrow> None
      | Some k \<Rightarrow> or_null (getIdempotencyKey (t_in e) (redis s) k))"

definition contact_ok :: "booking_req \<Rightarrow> bool" where
  "contact_ok req =
     (or_null (q_contact_email req) = None
      \<or> toLowerCase (String_of (or_null (q_contact_email req))) =
          toLowerCase (String_of (or_null (user_email req))))"

text \<open>The price the handler computes for a room, a number of days and a quantity.\<close>

definition total_price :: "room \<Rightarrow> nat \<Rightarrow> int \<Rightarrow> number" where
  "total_price room n qty =
     js_mul (js_mul (to_double (price_cents room)) (to_double (int n))) (to_double qty)"

text \<open>The booking document the handler hands to \<open>Booking.create\<close>.\<close>

definition new_booking :: "config \<Rightarrow> env \<Rightarrow> booking_req \<Rightarrow> room \<Rightarrow> booking" where
  "new_booking cfg e req room =
     \<lparr>b_id = new_id e, b_user_id = user_id req, b_room_id = q_room_id req,
      start_date = normalizeDate (q_start_date req), end_date = normalizeDate (q_end_date req),
      quantity = parse_qty (q_quantity req),
      total_price_cents =
        total_price room (length (getDateRange (tz cfg) (q_start_date req) (q_end_date req)))
          (parse_qty (q_quantity req)),
      status = Confirmed, cancellation_reason = None, cancelled_at = None,
      b_notes = map_option js_trim (or_null (q_notes req))\<rparr>"

text \<open>The state in which the \<open>try\<close> block runs: the lock is stored under the room's key.\<close>

definition with_lock :: "config \<Rightarrow> env \<Rightarrow> booking_req \<Rightarrow> state \<Rightarrow> state" where
  "with_lock cfg e req s =
     s\<lparr>redis := snd (acquireLock (t_in e) (redis s) (''lock:room:'' @ q_room_id req) (token e)
                       (lockTimeout cfg))\<rparr>"

section \<open>Sequences of operations\<close>

text \<open>
  The operations a client can run: the booking route, the \<open>cancel\<close> method on a loaded
  booking, and the search, which writes nothing.
\<close>

datatype operation =
    Book env booking_req
  | Cancel "string option" date booking
  | Search date date

definition apply_op :: "config \<Rightarrow> state \<Rightarrow> operation \<Rightarrow> state" where
  "apply_op cfg s op =
     (case op of
        Book e req \<Rightarrow> snd (post_booking cfg e req s)
      | Cancel reason now b \<Rightarrow> snd (cancel reason now b s)
      | Search startQ endQ \<Rightarrow> s)"

definition run_ops :: "config \<Rightarrow> state \<Rightarrow> operation list \<Rightarrow> state" where
  "run_ops cfg s ops = foldl (apply_op cfg) s ops"

section \<open>A concrete hotel\<close>

text \<open>
  A server in UTC; one active room at 1000 cents a night with availability records for 2025-12-01
  (\<open>ex_day 0\<close>) to 2025-12-04, five units in total on each day; a request for two units
  from 2025-12-01 to \<open>ex_day n\<close>.
\<close>

definition ex_day :: "int \<Rightarrow> date" where
  "ex_day n = 1764547200000 + n * msPerDay"

definition ex_room :: room where
  "ex_room = \<lparr>r_id = ''r1'', r_name = ''Lab'', r_description = ''Ground floor lab'',
              r_location = ''HQ'', r_floor = 0, r_capacity = 10, price_cents = 1000,
              r_amenities = [], r_images = [], is_active = True\<rparr>"

definition ex_avail :: "int \<Rightarrow> int \<Rightarrow> availability" where
  "ex_avail n u = \<lparr>a_room_id = ''r1'', a_date = ex_day n, total_units = 5, available_units = u\<rparr>"

definition ex_state :: "int list \<Rightarrow> state" where
  "ex_state us = \<lparr>rooms = [ex_room], availabilities = map2 ex_avail [0, 1, 2, 3] us,
                  bookings = [], redis = Map.empty\<rparr>"

definition ex_cfg :: "bool \<Rightarrow> config" where
  "ex_cfg tx = \<lparr>lockTimeout = 10000, idempotencyTTL = 86400, transactionsSupported = tx,
               tz = utc\<rparr>"

definition ex_env :: env where
  "ex_env = \<lparr>today = 1764460800000, t_in = 1764500000000, t_out = 1764500000050,
             token = ''tok'', new_id = ''b1''\<rparr>"

definition ex_req :: "int \<Rightarrow> booking_req" where
  "ex_req n = \<lparr>q_room_id = ''r1'', q_start_date = ex_day 0, q_end_date = ex_day n,
               q_quantity = Some 2, q_notes = None, q_contact_email = None,
               idempotency_key = Some ''k1'', user_id = ''u1'', user_email = Some ''a@b.c''\<rparr>"

text \<open>
  The state after the request for 2025-12-01 to 2025-12-03 has been served, the booking
  it created, and a later request environment.
\<close>

definition ex_booked :: state where
  "ex_booked = snd (booking_handler (ex_cfg False) ex_env (ex_req 2) (ex_state [5, 5, 5, 5]))"

definition ex_booking :: booking where
  "ex_booking = \<lparr>b_id = ''b1'', b_user_id = ''u1'', b_room_id = ''r1'', start_date = ex_day 0,
      end_date = ex_day 2, quantity = 2, total_price_cents = Fin 6000, status = Confirmed,
      cancellation_reason = None, cancelled_at = None, b_notes = None\<rparr>"

definition ex_env_later :: env where
  "ex_env_later = \<lparr>today = 1764460800000, t_in = 1764500005000, t_out = 1764500005050,
                   token = ''tok2'', new_id = ''b2''\<rparr>"


text \<open>
  The lock of room \<open>r1\<close> taken by client A at time 100 with a lease of 10000, and what
  client B's \<open>acquireLock\<close> at time 10100 does to a store.
\<close>

definition ex_locked :: redis where
  "ex_locked = snd (acquireLock 100 Map.empty ''lock:room:r1'' ''tokA'' 10000)"

definition ex_takeover :: "redis \<Rightarrow> redis" where
  "ex_takeover r = snd (acquireLock 10100 r ''lock:room:r1'' ''tokB'' 10000)"

section \<open>Date ranges\<close>

lemma msPerDay_pos: "0 < msPerDay"
  by (simp add: msPerDay_def)

lemma day_length_pos: "0 < day_length z t"
  using day_length[of z] by simp

lemma setDate_next_later: "t < setDate_next z t"
  by (simp add: setDate_next_def day_length_pos)

lemma normalizeDate_mod: "normalizeDate d mod msPerDay = 0"
  by (simp add: normalizeDate_def minus_mod_eq_mult_div)

lemma normalizeDate_idem: "d mod msPerDay = 0 \<Longrightarrow> normalizeDate d = d"
  by (simp add: normalizeDate_def)

lemma getDateRange_loop_bounds:
  "x \<in> set (getDateRange_loop z c e) \<Longrightarrow> c \<le> x \<and> x \<le> e"
proof (induction z c e rule: getDateRange_loop.induct)
  case (1 z c e)
  show ?case
  proof (cases "c \<le> e")
    case False
    then show ?thesis using "1.prems" by (simp add: getDateRange_loop.simps[of z c e])
  next
    case True
    then have "x = c \<or> x \<in> set (getDateRange_loop z (setDate_next z c) e)"
      using "1.prems" by (simp add: getDateRange_loop.simps[of z c e])
    then show ?thesis
    proof
      assume "x = c" then show ?thesis using True by simp
    next
      assume "x \<in> set (getDateRange_loop z (setDate_next z c) e)"
      from "1.IH"[OF True this] show ?thesis using setDate_next_later[of c z] by simp
    qed
  qed
qed

lemma getDateRange_loop_distinct: "distinct (getDateRange_loop z c e)"
proof (induction z c e rule: getDateRange_loop.induct)
  case (1 z c e)
  show ?case
  proof (cases "c \<le> e")
    case False
    then show ?thesis by (simp add: getDateRange_loop.simps[of z c e])
  next
    case True
    have "c \<notin> set (getDateRange_loop z (setDate_next z c) e)"
      using getDateRange_loop_bounds[of c z "setDate_next z c" e] setDate_next_later[of c z] by auto
    then show ?thesis using True "1.IH" by (simp add: getDateRange_loop.simps[of z c e])
  qed
qed

lemma getDateRange_distinct: "distinct (getDateRange z s e)"
  by (simp add: getDateRange_def getDateRange_loop_distinct)

section \<open>The conditional decrement and the day loop\<close>

lemma a_key_decrement [simp]: "a_key (decrement qty a) = a_key a"
  by (simp add: a_key_def decrement_def)

lemma updateOne_dec_keys: "map a_key (snd (updateOne_dec rid d qty avs)) = map a_key avs"
  by (induction avs) (auto simp: a_key_def split: prod.splits)

lemma updateOne_dec_length: "length (snd (updateOne_dec rid d qty avs)) = length avs"
  by (induction avs) (auto split: prod.splits)

lemma updateOne_dec_count: "fst (updateOne_dec rid d qty avs) \<le> 1"
  by (induction avs) (auto split: prod.splits)

lemma updateOne_dec_miss:
  "\<forall>a \<in> set avs. \<not> (a_key a = (rid, d) \<and> qty \<le> available_units a) \<Longrightarrow>
   updateOne_dec rid d qty avs = (0, avs)"
  by (induction avs) (auto simp: a_key_def)

lemma updateOne_dec_hit:
  "unique_keys avs \<Longrightarrow> a \<in> set avs \<Longrightarrow> a_key a = (rid, d) \<Longrightarrow> qty \<le> available_units a \<Longrightarrow>
   updateOne_dec rid d qty avs =
     (1, map (\<lambda>x. if a_key x = (rid, d) then decrement qty x else x) avs)"
proof (induction avs)
  case Nil
  then show ?case by simp
next
  case (Cons x xs)
  show ?case
  proof (cases "x = a")
    case True
    have "\<forall>y \<in> set xs. a_key y \<noteq> (rid, d)"
      using Cons.prems True by (force simp: unique_keys_def)
    then have "map (\<lambda>x. if a_key x = (rid, d) then decrement qty x else x) xs = xs"
      by (simp add: map_idI)
    then show ?thesis using Cons.prems True by (simp add: a_key_def decrement_def)
  next
    case False
    then have in_xs: "a \<in> set xs" using Cons.prems by simp
    have "a_key x \<noteq> a_key a" using Cons.prems in_xs by (force simp: unique_keys_def)
    then have nx: "\<not> (a_room_id x = rid \<and> a_date x = d)"
      using Cons.prems by (auto simp: a_key_def)
    have "unique_keys xs" using Cons.prems by (simp add: unique_keys_def)
    from Cons.IH[OF this in_xs Cons.prems(3,4)] nx show ?thesis
      by (auto simp: a_key_def)
  qed
qed

lemma units_ok_Cons:
  "units_ok (a # avs) = (0 \<le> available_units a \<and> available_units a \<le> total_units a \<and> units_ok avs)"
  by (simp add: units_ok_def)

lemma updateOne_dec_units_ok:
  "0 \<le> qty \<Longrightarrow> units_ok avs \<Longrightarrow> units_ok (snd (updateOne_dec rid d qty avs))"
proof (induction avs)
  case Nil
  then show ?case by simp
next
  case (Cons a avs)
  obtain n avs' where r: "updateOne_dec rid d qty avs = (n, avs')" by (cases "updateOne_dec rid d qty avs")
  have a: "0 \<le> available_units a" "available_units a \<le> total_units a" "units_ok avs"
    using Cons.prems(2) by (simp_all add: units_ok_Cons)
  have "units_ok avs'" using Cons.IH[OF Cons.prems(1) a(3)] r by simp
  then show ?case using a Cons.prems(1) r by (simp add: units_ok_Cons)
qed

lemma day_loop_units_ok:
  "0 \<le> qty \<Longrightarrow> units_ok avs \<Longrightarrow> units_ok (snd (day_loop rid qty days avs))"
proof (induction days arbitrary: avs)
  case Nil
  then show ?case by simp
next
  case (Cons d ds)
  have "units_ok (snd (updateOne_dec rid d qty avs))"
    using Cons.prems by (rule updateOne_dec_units_ok)
  then show ?case using Cons.IH[OF Cons.prems(1)]
    by (auto split: prod.splits)
qed

lemma day_loop_keys: "map a_key (snd (day_loop rid qty days avs)) = map a_key avs"
proof (induction days arbitrary: avs)
  case Nil
  then show ?case by simp
next
  case (Cons d ds)
  show ?case using Cons.IH updateOne_dec_keys[of rid d qty avs]
    by (auto split: prod.splits)
qed

text \<open>What the loop has done when it ends: the dates before the failing one are decremented.\<close>

lemma dec_days_key [simp]: "a_key (dec_days rid qty D a) = a_key a"
  by (simp add: dec_days_def)

lemma dec_days_other: "a_key a = (rid', x) \<Longrightarrow> x \<notin> D \<Longrightarrow> dec_days rid qty D a = a"
  by (simp add: dec_days_def a_key_def)

lemma has_units_dec_days:
  assumes "x \<notin> D"
  shows "has_units rid' x q (map (dec_days rid qty D) avs) = has_units rid' x q avs"
proof -
  have "has_units rid' x q (map (dec_days rid qty D) avs) =
        (\<exists>a \<in> set avs. a_key a = (rid', x) \<and> q \<le> available_units (dec_days rid qty D a))"
    by (simp add: has_units_def)
  also have "\<dots> = (\<exists>a \<in> set avs. a_key a = (rid', x) \<and> q \<le> available_units a)"
    using dec_days_other[OF _ assms] by (intro bex_cong refl conj_cong) simp_all
  finally show ?thesis by (simp add: has_units_def)
qed

lemma dec_days_insert:
  "d \<notin> D \<Longrightarrow> dec_days rid qty D (dec_days rid qty {d} a) = dec_days rid qty (insert d D) a"
  by (cases "a_room_id a = rid \<and> a_date a = d") (auto simp: dec_days_def decrement_def)

lemma updateOne_dec_cases:
  assumes "unique_keys avs"
  shows "updateOne_dec rid d qty avs =
           (if has_units rid d qty avs then (1, map (dec_days rid qty {d}) avs) else (0, avs))"
proof (cases "has_units rid d qty avs")
  case True
  then obtain a where a: "a \<in> set avs" "a_key a = (rid, d)" "qty \<le> available_units a"
    by (auto simp: has_units_def)
  have "(\<lambda>x. if a_key x = (rid, d) then decrement qty x else x) = dec_days rid qty {d}"
    by (auto simp: dec_days_def a_key_def)
  then show ?thesis using updateOne_dec_hit[OF assms(1) a] True by simp
next
  case False
  then show ?thesis using updateOne_dec_miss[of avs rid d qty] by (auto simp: has_units_def)
qed

lemma day_loop_result:
  assumes "unique_keys avs" "distinct days"
  shows "case day_loop rid qty days avs of
           (None, avs') \<Rightarrow> avs' = map (dec_days rid qty (set days)) avs
                           \<and> (\<forall>d \<in> set days. has_units rid d qty avs)
         | (Some d, avs') \<Rightarrow> (\<exists>pre post. days = pre @ d # post
                           \<and> avs' = map (dec_days rid qty (set pre)) avs
                           \<and> (\<forall>x \<in> set pre. has_units rid x qty avs)
                           \<and> \<not> has_units rid d qty avs)"
  using assms
proof (induction days arbitrary: avs)
  case Nil
  then show ?case by (simp add: dec_days_def map_idI)
next
  case (Cons d ds)
  show ?case
  proof (cases "has_units rid d qty avs")
    case False
    then have "day_loop rid qty (d # ds) avs = (Some d, avs)"
      using updateOne_dec_cases[OF Cons.prems(1)] by simp
    moreover have "avs = map (dec_days rid qty (set [])) avs"
      by (simp add: dec_days_def map_idI)
    ultimately have "day_loop rid qty (d # ds) avs = (Some d, avs)" "d # ds = [] @ d # ds"
      "avs = map (dec_days rid qty (set [])) avs" "\<forall>x \<in> set []. has_units rid x qty avs" by simp_all
    then show ?thesis using False by (simp only: prod.case option.case) blast
  next
    case True
    define avs1 where "avs1 = map (dec_days rid qty {d}) avs"
    have step: "day_loop rid qty (d # ds) avs = day_loop rid qty ds avs1"
      using updateOne_dec_cases[OF Cons.prems(1)] True by (simp add: avs1_def)
    have k1: "map a_key avs1 = map a_key avs"
      by (simp add: avs1_def comp_def)
    then have u1: "unique_keys avs1" using Cons.prems(1) by (simp add: unique_keys_def)
    have dd: "distinct ds" "d \<notin> set ds" using Cons.prems(2) by auto
    have comp: "\<And>D. d \<notin> D \<Longrightarrow> map (dec_days rid qty D) avs1 = map (dec_days rid qty (insert d D)) avs"
      by (simp add: avs1_def dec_days_insert)
    have hu: "\<And>x. x \<noteq> d \<Longrightarrow> has_units rid x qty avs1 = has_units rid x qty avs"
      unfolding avs1_def by (rule has_units_dec_days) simp
    note IH = Cons.IH[OF u1 dd(1)]
    show ?thesis
    proof (cases "day_loop rid qty ds avs1")
      case (Pair r avs')
      show ?thesis
      proof (cases r)
        case None
        with IH Pair have "avs' = map (dec_days rid qty (set ds)) avs1"
          "\<forall>x \<in> set ds. has_units rid x qty avs1" by auto
        moreover have "\<forall>x \<in> set (d # ds). has_units rid x qty avs"
        proof
          fix x assume "x \<in> set (d # ds)"
          then consider "x = d" | "x \<in> set ds" "x \<noteq> d" using dd(2) by auto
          then show "has_units rid x qty avs"
          proof cases
            case 1 then show ?thesis using True by simp
          next
            case 2 then show ?thesis using hu calculation(2) by blast
          qed
        qed
        ultimately show ?thesis using step Pair None comp[OF dd(2)] by simp
      next
        case (Some f)
        with IH Pair obtain pre post where p: "ds = pre @ f # post"
          "avs' = map (dec_days rid qty (set pre)) avs1"
          "\<forall>x \<in> set pre. has_units rid x qty avs1" "\<not> has_units rid f qty avs1" by auto
        have ne: "d \<notin> set pre" "f \<noteq> d" using p(1) dd(2) by auto
        have "d # ds = (d # pre) @ f # post" using p(1) by simp
        moreover have "avs' = map (dec_days rid qty (set (d # pre))) avs"
          using p(2) comp[OF ne(1)] by simp
        moreover have "\<forall>x \<in> set (d # pre). has_units rid x qty avs"
          using p(3) hu ne(1) True by (metis set_ConsD)
        moreover have "\<not> has_units rid f qty avs" using p(4) hu[OF ne(2)] by simp
        ultimately show ?thesis using step Pair Some by (simp only: prod.case option.case) blast
      qed
    qed
  qed
qed


section \<open>Numbers\<close>

lemma to_double_small: "\<bar>i\<bar> < 2 ^ 53 \<Longrightarrow> to_double i = Fin i"
  by (auto simp: to_double_def round_nat_def Let_def)

lemma to_double_rounds_to_even:
  "to_double (2 ^ 53 + 1) = Fin (2 ^ 53) \<and> to_double (2 ^ 53 + 3) = Fin (2 ^ 53 + 4)"
  by (simp add: to_double_def round_nat_def Let_def bit_length.simps)

section \<open>Evaluating the model\<close>

lemmas ex_defs = msPerDay_def ex_day_def ex_room_def ex_avail_def ex_state_def ex_cfg_def ex_env_def ex_req_def

lemmas run_defs = booking_handler_def booking_try_def post_booking_def validateDateRange_def
  check_quantity_def parse_qty_def or_null_def getIdempotencyKey_def setIdempotencyKey_def
  acquireLock_def releaseLock_def redis_get_def abortTransaction_def catch_response_def
  booking_save_checks_def booking_validate_def booking_pre_save_def too_long_def
  validate_quantity_def validate_total_price_def validate_cancellation_reason_def
  validate_notes_def getDateRange_def normalizeDate_def getDateRange_loop.simps Let_def
  setDate_next_def utc.rep_eq to_double_small
  toLowerCase_def String_of_def

lemma ex_unique: "unique_keys (availabilities (ex_state [a, b, c, d]))"
  by (simp add: unique_keys_def a_key_def ex_defs)

lemma ex_booked_bookings: "bookings ex_booked = [ex_booking]"
  by (simp add: ex_booked_def ex_booking_def ex_defs run_defs)

lemma ex_booked_availabilities: "availabilities ex_booked = map2 ex_avail [0, 1, 2, 3] [3, 3, 3, 5]"
  by (simp add: ex_booked_def ex_defs run_defs)

lemma ex_booked_created:
  "fst (booking_handler (ex_cfg False) ex_env (ex_req 2) (ex_state [5, 5, 5, 5])) = Created ex_booking"
  by (simp add: ex_booking_def ex_defs run_defs)

lemma js_trim_user_request: "js_trim ''user request'' = ''user request''"
  by (simp add: js_trim_def is_space_def)

lemma ex_cancel:
  "cancel (Some ''user request'') 1764600000000 ex_booking ex_booked =
     (Inr (ex_booking\<lparr>status := Cancelled, cancellation_reason := Some ''user request'',
                      cancelled_at := Some 1764600000000\<rparr>),
      ex_booked\<lparr>bookings := [ex_booking\<lparr>status := Cancelled,
                      cancellation_reason := Some ''user request'',
                      cancelled_at := Some 1764600000000\<rparr>]\<rparr>)"
  by (simp add: cancel_def ex_booked_bookings js_trim_user_request
        validate_cancellation_reason_def booking_pre_save_def too_long_def ex_booking_def
        ex_day_def msPerDay_def Let_def)

lemma ex_booked_idempotency:
  "getIdempotencyKey (t_in ex_env_later) (redis ex_booked) ''k1'' = Some ''b1''"
  by (simp add: ex_booked_def ex_env_later_def ex_defs run_defs)

lemma normalizeDate_ex_day: "normalizeDate (ex_day n) = ex_day n"
  by (simp add: normalizeDate_def ex_day_def msPerDay_def)

lemma rooms_ex_state: "rooms (ex_state us) = [ex_room]"
  by (simp add: ex_state_def)

lemma ex_match_range: "match_range (ex_day 0) (ex_day 1) (availabilities (ex_state [0, 3, 5, 5])) = [ex_avail 1 3]"
  by (simp add: match_range_def ex_defs)

lemma ex_group_by_room: "group_by_room [ex_avail 1 3] = [(''r1'', 3, 1)]"
  by (simp add: group_by_room_def ex_avail_def)

lemma ex_lookup_unwind: "filter (\<lambda>(r, m, n). is_active r) (lookup_unwind [ex_room] [(''r1'', m, n)]) = [(ex_room, m, n)]"
  by (simp add: lookup_unwind_def ex_room_def)

lemma ex_search_rooms: "search_rooms (ex_day 0) (ex_day 1) (ex_state [0, 3, 5, 5]) = [project (ex_room, 3, 1)]"
  by (simp add: search_rooms_def normalizeDate_ex_day ex_match_range ex_group_by_room ex_lookup_unwind rooms_ex_state)

lemma ex_cancel_again:
  "fst (cancel (Some ''again'') 1764600001000
          (ex_booking\<lparr>status := Cancelled, cancellation_reason := Some ''user request'',
                        cancelled_at := Some 1764600000000\<rparr>) s) =
   Inl (Error ''Booking is already cancelled'')"
  by (simp add: cancel_def)

lemma units_ex_state: "map available_units (availabilities (ex_state [a, b, c, d])) = [a, b, c, d]"
  by (simp add: ex_state_def ex_avail_def)

section \<open>The booking handler, case by case\<close>

lemma normalizeDate_normalizeDate: "normalizeDate (normalizeDate d) = normalizeDate d"
  by (simp add: normalizeDate_idem normalizeDate_mod)

lemma getDateRange_normalized:
  "getDateRange z (normalizeDate s) (normalizeDate e) = getDateRange z s e"
  by (simp add: getDateRange_def normalizeDate_normalizeDate)

lemma booking_save_checks_None:
  "booking_save_checks b = None \<Longrightarrow> 1 \<le> quantity b \<and> quantity b \<le> 100 \<and> start_date b < end_date b"
  by (auto simp: booking_save_checks_def booking_validate_def validate_quantity_def
           booking_pre_save_def split: option.splits if_splits)


lemma booking_try_committed:
  assumes "booking_try cfg e req s = (Committed doc, s2)"
  shows "\<exists>room. find (\<lambda>r. r_id r = q_room_id req \<and> is_active r) (rooms s) = Some room
          \<and> day_loop (q_room_id req) (parse_qty (q_quantity req))
               (getDateRange (tz cfg) (normalizeDate (q_start_date req)) (normalizeDate (q_end_date req)))
               (availabilities s) = (None, availabilities s2)
          \<and> bookings s2 = bookings s @ [doc]
          \<and> booking_save_checks doc = None
          \<and> b_id doc = new_id e
          \<and> quantity doc = parse_qty (q_quantity req)
          \<and> start_date doc = normalizeDate (q_start_date req)
          \<and> end_date doc = normalizeDate (q_end_date req)
          \<and> status doc = Confirmed
          \<and> total_price_cents doc =
              js_mul (js_mul (to_double (price_cents room))
                        (to_double (int (length (getDateRange (tz cfg)
                           (normalizeDate (q_start_date req)) (normalizeDate (q_end_date req)))))))
                (to_double (parse_qty (q_quantity req)))"
  using assms
  by (auto simp: booking_try_def Let_def split: option.splits prod.splits if_splits)

lemma booking_try_conflict:
  assumes "booking_try cfg e req s = (Returned (Conflict d), s2)"
  shows "day_loop (q_room_id req) (parse_qty (q_quantity req))
               (getDateRange (tz cfg) (normalizeDate (q_start_date req)) (normalizeDate (q_end_date req)))
               (availabilities s) = (Some d, availabilities s2)
          \<and> bookings s2 = bookings s"
  using assms
  by (auto simp: booking_try_def Let_def split: option.splits prod.splits if_splits)

lemma booking_try_availabilities:
  "availabilities (snd (booking_try cfg e req s)) = availabilities s
   \<or> availabilities (snd (booking_try cfg e req s)) =
       snd (day_loop (q_room_id req) (parse_qty (q_quantity req))
               (getDateRange (tz cfg) (normalizeDate (q_start_date req)) (normalizeDate (q_end_date req)))
               (availabilities s))"
  by (simp add: booking_try_def Let_def split: option.splits prod.splits)

lemma booking_try_returned:
  assumes "booking_try cfg e req s = (Returned x, s2)"
  shows "x = Forbidden \<or> x = Not_found \<or> (\<exists>d. x = Conflict d)"
  using assms
  by (auto simp: booking_try_def Let_def split: option.splits prod.splits if_splits)

lemma booking_handler_created:
  assumes "booking_handler cfg e req s = (Created doc, s')"
  shows "\<exists>s2. booking_try cfg e req
            (s\<lparr>redis := snd (acquireLock (t_in e) (redis s) (''lock:room:'' @ q_room_id req)
                               (token e) (lockTimeout cfg))\<rparr>) = (Committed doc, s2)
          \<and> availabilities s' = availabilities s2 \<and> bookings s' = bookings s2 \<and> rooms s' = rooms s2"
  using assms
  by (auto simp: booking_handler_def Let_def catch_response_def
           dest: booking_try_returned
           split: option.splits prod.splits if_splits bool.splits outcome.splits exn.splits)

lemma booking_handler_conflict:
  assumes "booking_handler cfg e req s = (Conflict d, s')"
  shows "\<exists>s1 s2. s1 = s\<lparr>redis := snd (acquireLock (t_in e) (redis s) (''lock:room:'' @ q_room_id req)
                               (token e) (lockTimeout cfg))\<rparr>
          \<and> booking_try cfg e req s1 = (Returned (Conflict d), s2)
          \<and> availabilities s' = availabilities (abortTransaction cfg s1 s2)
          \<and> bookings s' = bookings (abortTransaction cfg s1 s2)"
  using assms
  by (auto simp: booking_handler_def Let_def catch_response_def
           split: option.splits prod.splits if_splits bool.splits outcome.splits exn.splits)

lemma check_quantity_None:
  "check_quantity req = None \<Longrightarrow> 1 \<le> parse_qty (q_quantity req) \<and> parse_qty (q_quantity req) \<le> 100"
  by (auto simp: check_quantity_def Let_def split: if_splits)

lemma post_booking_cases:
  assumes "post_booking cfg e req s = (x, s')"
  shows "(validateDateRange (today e) req = None \<and> check_quantity req = None
          \<and> booking_handler cfg e req s = (x, s'))
       \<or> (s' = s \<and> (\<exists>m. x = Bad_request m))"
  using assms
  by (auto simp: post_booking_def validateDateRange_def check_quantity_def Let_def
           split: option.splits if_splits)

lemma dec_days_untouched: "a_date a \<notin> D \<Longrightarrow> dec_days rid qty D a = a"
  by (simp add: dec_days_def)

section \<open>The bounds of \<open>available_units\<close> are kept\<close>

lemma abortTransaction_availabilities:
  "availabilities (abortTransaction cfg before s) = availabilities before
   \<or> availabilities (abortTransaction cfg before s) = availabilities s"
  by (simp add: abortTransaction_def)

lemma booking_handler_availabilities:
  "availabilities (snd (booking_handler cfg e req s)) = availabilities s
   \<or> availabilities (snd (booking_handler cfg e req s)) =
       snd (day_loop (q_room_id req) (parse_qty (q_quantity req))
               (getDateRange (tz cfg) (normalizeDate (q_start_date req)) (normalizeDate (q_end_date req)))
               (availabilities s))"
proof -
  let ?s1 = "s\<lparr>redis := snd (acquireLock (t_in e) (redis s) (''lock:room:'' @ q_room_id req)
                               (token e) (lockTimeout cfg))\<rparr>"
  have a: "availabilities (snd (booking_handler cfg e req s)) = availabilities s
     \<or> availabilities (snd (booking_handler cfg e req s)) = availabilities (snd (booking_try cfg e req ?s1))"
    by (auto simp: booking_handler_def Let_def abortTransaction_def
             split: option.splits prod.splits bool.splits outcome.splits)
  show ?thesis using a booking_try_availabilities[of cfg e req ?s1] by auto
qed

lemma post_booking_units_ok:
  assumes "units_ok (availabilities s)"
  shows "units_ok (availabilities (snd (post_booking cfg e req s)))"
proof (cases "validateDateRange (today e) req = None \<and> check_quantity req = None")
  case False
  then have "snd (post_booking cfg e req s) = s"
    by (auto simp: post_booking_def split: option.splits)
  then show ?thesis using assms by simp
next
  case True
  then have p: "post_booking cfg e req s = booking_handler cfg e req s"
    by (simp add: post_booking_def)
  have q: "0 \<le> parse_qty (q_quantity req)" using check_quantity_None[of req] True by simp
  show ?thesis
    using booking_handler_availabilities[of cfg e req s] day_loop_units_ok[OF q assms] assms
    unfolding p by auto
qed

lemma cancel_availabilities: "availabilities (snd (cancel reason now b s)) = availabilities s"
  by (simp add: cancel_def Let_def split: option.splits)

lemma apply_op_units_ok:
  "units_ok (availabilities s) \<Longrightarrow> units_ok (availabilities (apply_op cfg s op))"
  by (cases op) (simp_all add: apply_op_def post_booking_units_ok cancel_availabilities)

lemma run_ops_units_ok:
  "units_ok (availabilities s) \<Longrightarrow> units_ok (availabilities (run_ops cfg s ops))"
  unfolding run_ops_def
  by (induction ops arbitrary: s) (simp_all add: apply_op_units_ok)

text \<open>No operation adds or removes an availability record or changes its room or date.\<close>

lemma post_booking_keys:
  "map a_key (availabilities (snd (post_booking cfg e req s))) = map a_key (availabilities s)"
proof -
  have "availabilities (snd (post_booking cfg e req s)) = availabilities s
      \<or> availabilities (snd (post_booking cfg e req s)) =
          availabilities (snd (booking_handler cfg e req s))"
    by (simp add: post_booking_def split: option.splits)
  then show ?thesis
    using booking_handler_availabilities[of cfg e req s]
      day_loop_keys[of "q_room_id req" "parse_qty (q_quantity req)" _ "availabilities s"]
    by auto
qed

lemma apply_op_unique_keys:
  "unique_keys (availabilities s) \<Longrightarrow> unique_keys (availabilities (apply_op cfg s op))"
  by (cases op) (simp_all add: apply_op_def unique_keys_def post_booking_keys cancel_availabilities)

section \<open>Errors thrown in the \<open>try\<close> block\<close>

lemma booking_try_threw:
  assumes "booking_try cfg e req s = (Threw x, s2)"
  shows "day_loop (q_room_id req) (parse_qty (q_quantity req))
               (getDateRange (tz cfg) (normalizeDate (q_start_date req)) (normalizeDate (q_end_date req)))
               (availabilities s) = (None, availabilities s2)
          \<and> bookings s2 = bookings s"
  using assms
  by (auto simp: booking_try_def Let_def split: option.splits prod.splits if_splits)

lemma booking_handler_server_error:
  assumes "booking_handler cfg e req s = (Server_error, s')"
  shows "\<exists>s1 s2 x. s1 = s\<lparr>redis := snd (acquireLock (t_in e) (redis s) (''lock:room:'' @ q_room_id req)
                               (token e) (lockTimeout cfg))\<rparr>
          \<and> booking_try cfg e req s1 = (Threw x, s2)
          \<and> availabilities s' = availabilities (abortTransaction cfg s1 s2)
          \<and> bookings s' = bookings (abortTransaction cfg s1 s2)"
  using assms
  by (auto simp: booking_handler_def Let_def catch_response_def
           dest: booking_try_returned
           split: option.splits prod.splits if_splits bool.splits outcome.splits exn.splits)

lemma getDateRange_same_day:
  assumes "normalizeDate a = normalizeDate b"
  shows "getDateRange z a b = [normalizeDate a]"
proof -
  let ?c = "normalizeDate b"
  have "\<not> setDate_next z ?c \<le> ?c" using setDate_next_later[of ?c z] by simp
  then have "getDateRange_loop z (setDate_next z ?c) ?c = []"
    by (simp add: getDateRange_loop.simps[of z "setDate_next z ?c" ?c])
  then have "getDateRange_loop z ?c ?c = [?c]"
    by (simp add: getDateRange_loop.simps[of z ?c ?c])
  then show ?thesis using assms by (simp add: getDateRange_def)
qed

section \<open>The stages of the search\<close>

lemma filter_match_range:
  "filter (\<lambda>a. a_room_id a = rid) (match_range (normalizeDate startQ) (normalizeDate endQ) avs) =
   positive_days startQ endQ rid avs"
  unfolding match_range_def positive_days_def filter_filter
  by (rule filter_cong[OF refl]) auto

lemma positive_days_pos: "a \<in> set (positive_days startQ endQ rid avs) \<Longrightarrow> 0 < available_units a"
  by (simp add: positive_days_def)

lemma min_list_positive_days:
  assumes "positive_days startQ endQ rid avs \<noteq> []"
  shows "min_list (map available_units (positive_days startQ endQ rid avs)) =
           Min (available_units ` set (positive_days startQ endQ rid avs))"
    and "0 < Min (available_units ` set (positive_days startQ endQ rid avs))"
proof -
  let ?pd = "positive_days startQ endQ rid avs"
  show "min_list (map available_units ?pd) = Min (available_units ` set ?pd)"
    using assms min_list_Min[of "map available_units ?pd"] by simp
  have "Min (available_units ` set ?pd) \<in> available_units ` set ?pd"
    using assms by (intro Min_in) simp_all
  then show "0 < Min (available_units ` set ?pd)"
    using positive_days_pos by auto
qed

lemma set_lookup_unwind:
  "set (lookup_unwind rs gs) = {(r, m, n). r \<in> set rs \<and> (r_id r, m, n) \<in> set gs}"
  by (auto simp: lookup_unwind_def)

lemma grouped_set:
  "set (filter (\<lambda>(rid, m, n). 0 < m)
         (group_by_room (match_range (normalizeDate startQ) (normalizeDate endQ) avs))) =
   {(rid, Min (available_units ` set (positive_days startQ endQ rid avs)),
          length (positive_days startQ endQ rid avs)) | rid.
      positive_days startQ endQ rid avs \<noteq> []}" (is "?L = ?R")
proof -
  let ?m = "match_range (normalizeDate startQ) (normalizeDate endQ) avs"
  let ?pd = "\<lambda>rid. positive_days startQ endQ rid avs"
  have ne: "\<And>rid. (rid \<in> a_room_id ` set ?m) = (?pd rid \<noteq> [])"
  proof -
    fix rid
    have "(?pd rid \<noteq> []) = (\<exists>a \<in> set ?m. a_room_id a = rid)"
      unfolding filter_match_range[symmetric] by (simp add: filter_empty_conv)
    then show "(rid \<in> a_room_id ` set ?m) = (?pd rid \<noteq> [])" by auto
  qed
  have g: "set (group_by_room ?m) =
      (\<lambda>rid. (rid, min_list (map available_units (?pd rid)), length (?pd rid))) ` {rid. ?pd rid \<noteq> []}"
    using ne by (auto simp: group_by_room_def filter_match_range)
  show ?thesis
    unfolding set_filter g using min_list_positive_days by auto
qed

section \<open>The idempotency key after a booking\<close>

lemma booking_handler_created_redis:
  assumes "booking_handler cfg e req s = (Created b, s')" and "or_null (idempotency_key req) = Some k"
  shows "\<exists>r. redis s' = releaseLock (t_out e) (\<lambda>r. r)
                 (setIdempotencyKey (t_out e) r k (b_id b) (idempotencyTTL cfg))
                 (''lock:room:'' @ q_room_id req) (token e)
        \<and> b_id b = new_id e"
proof -
  let ?s1 = "s\<lparr>redis := snd (acquireLock (t_in e) (redis s) (''lock:room:'' @ q_room_id req)
                               (token e) (lockTimeout cfg))\<rparr>"
  obtain s2 where t: "booking_try cfg e req ?s1 = (Committed b, s2)"
    using booking_handler_created[OF assms(1)] by blast
  have id: "b_id b = new_id e" using booking_try_committed[OF t] by blast
  have "redis s' = releaseLock (t_out e) (\<lambda>r. r)
                 (setIdempotencyKey (t_out e) (redis s2) k (b_id b) (idempotencyTTL cfg))
                 (''lock:room:'' @ q_room_id req) (token e)"
    using assms t
    by (auto simp: booking_handler_def Let_def
             split: option.splits prod.splits bool.splits)
  then show ?thesis using id by blast
qed

lemma idem_key_after_release:
  "getIdempotencyKey now
     (releaseLock t (\<lambda>r. r) (setIdempotencyKey t r k v ttl) (''lock:room:'' @ rid) tok) k =
   (if now < t + ttl * 1000 then Some v else None)"
  by (simp add: getIdempotencyKey_def releaseLock_def setIdempotencyKey_def redis_get_def Let_def)

section \<open>The lock, one client at a time\<close>

text \<open>
  What \<open>acquireLock\<close> and \<open>releaseLock\<close> do to the stored entry, with its expiry time
  visible, when nothing happens between the \<open>GET\<close> and the \<open>DEL\<close> of a release.
\<close>

lemma acquireLock_store:
  "acquireLock now r k tok timeout =
     (case r k of
        None \<Rightarrow> (True, r(k \<mapsto> (tok, now + timeout)))
      | Some (v, expires) \<Rightarrow>
          if now < expires then (False, r) else (True, r(k \<mapsto> (tok, now + timeout))))"
  by (simp add: acquireLock_def redis_get_def split: option.splits)

lemma lease_runs_then_ends:
  assumes "fst (acquireLock now r k tok timeout)"
  shows "fst (acquireLock t (snd (acquireLock now r k tok timeout)) k tok' timeout') =
           (now + timeout \<le> t)"
  using assms by (auto simp: acquireLock_store split: option.splits if_splits)

lemma releaseLock_alone:
  "releaseLock now (\<lambda>r. r) r k tok =
     (case r k of
        None \<Rightarrow> r
      | Some (v, expires) \<Rightarrow> if now < expires \<and> v = tok then r(k := None) else r)"
  by (simp add: releaseLock_def redis_get_def Let_def split: option.splits)

lemma stale_holder_release_is_noop:
  assumes "fst (acquireLock t0 r k tokA lease)" and "t0 + lease \<le> t1" and "tokB \<noteq> tokA"
  shows "releaseLock t2 (\<lambda>r. r) (snd (acquireLock t1 (snd (acquireLock t0 r k tokA lease)) k tokB lease')) k tokA
           = snd (acquireLock t1 (snd (acquireLock t0 r k tokA lease)) k tokB lease')"
  using assms by (auto simp: releaseLock_alone acquireLock_store split: option.splits if_splits)

section \<open>The example request through the route\<close>

lemma ex_post_booking_created:
  "fst (post_booking (ex_cfg False) ex_env (ex_req 2) (ex_state [5, 5, 5, 5])) = Created ex_booking"
  by (simp add: ex_booking_def ex_defs run_defs)

lemma ex_post_booking_units:
  "map available_units (availabilities (snd (post_booking (ex_cfg False) ex_env (ex_req 2)
      (ex_state [5, 5, 5, 5])))) = [3, 3, 3, 5]"
  by (simp add: ex_defs run_defs)

section \<open>The handler, from its inputs to its answer\<close>

lemma booking_try_after_loop:
  assumes "contact_ok req"
      and "find (\<lambda>r. r_id r = q_room_id req \<and> is_active r) (rooms s) = Some room"
      and "day_loop (q_room_id req) (parse_qty (q_quantity req))
             (getDateRange (tz cfg) (q_start_date req) (q_end_date req)) (availabilities s) = (v, avs)"
  shows "booking_try cfg e req s =
     (case v of
        Some d \<Rightarrow> (Returned (Conflict d), s\<lparr>availabilities := avs\<rparr>)
      | None \<Rightarrow>
          (case booking_save_checks (new_booking cfg e req room) of
             Some x \<Rightarrow> (Threw x, s\<lparr>availabilities := avs\<rparr>)
           | None \<Rightarrow> (Committed (new_booking cfg e req room),
                      s\<lparr>availabilities := avs,
                        bookings := bookings s @ [new_booking cfg e req room]\<rparr>)))"
  using assms
  by (auto simp: booking_try_def contact_ok_def new_booking_def total_price_def Let_def
        getDateRange_normalized split: option.splits)


lemma booking_handler_after_lock:
  assumes "stored_answer e req s = None"
      and "redis_get (t_in e) (redis s) (''lock:room:'' @ q_room_id req) = None"
      and "booking_try cfg e req (with_lock cfg e req s) = (out, s2)"
  shows "fst (booking_handler cfg e req s) =
           (case out of Returned x \<Rightarrow> x | Threw x \<Rightarrow> catch_response x | Committed doc \<Rightarrow> Created doc)"
    and "availabilities (snd (booking_handler cfg e req s)) =
           (case out of Committed doc \<Rightarrow> availabilities s2
            | _ \<Rightarrow> if transactionsSupported cfg then availabilities s else availabilities s2)"
    and "bookings (snd (booking_handler cfg e req s)) =
           (case out of Committed doc \<Rightarrow> bookings s2
            | _ \<Rightarrow> if transactionsSupported cfg then bookings s else bookings s2)"
  using assms
  by (auto simp: booking_handler_def stored_answer_def with_lock_def acquireLock_def Let_def
        abortTransaction_def split: option.splits outcome.splits)

lemma with_lock_fields:
  "availabilities (with_lock cfg e req s) = availabilities s"
  "bookings (with_lock cfg e req s) = bookings s"
  "rooms (with_lock cfg e req s) = rooms s"
  by (simp_all add: with_lock_def)

lemma same_day_save_checks:
  assumes "q_end_date req = q_start_date req"
  shows "booking_save_checks (new_booking cfg e req room) =
           Some (if booking_validate (new_booking cfg e req room) = []
                 then Error ''End date must be after start date''
                 else ValidationError (booking_validate (new_booking cfg e req room)))"
  using assms by (simp add: booking_save_checks_def booking_pre_save_def new_booking_def)

section \<open>Two requests on one room\<close>










section \<open>C1: the days a booking takes and its price\<close>

text \<open>
  C1 says that a booking takes the nights from \<open>start_date\<close> through the day before
  \<open>end_date\<close> and is charged for that many nights: two nights for 2025-12-01 to
  2025-12-03. The booking's own \<open>nights\<close> virtual agrees (end minus start, in days), and
  the pre-save hook demands an end after the start. The handler does otherwise:
  \<open>getDateRange\<close> loops while \<open>current <= end\<close> and \<open>nights = days.length\<close>.

  C1, at the request of 2 units of a room at 1000 cents for 2025-12-01 to 2025-12-03, with
  5 units on each of 2025-12-01 .. 2025-12-04: the booking is created, the units of
  2025-12-01, 2025-12-02 and of the checkout day 2025-12-03 go from 5 to 3, the stored price
  is \<open>1000 * 3 * 2\<close>, and the \<open>nights\<close> of the stored booking is 2.
\<close>

theorem checkout_day_is_booked:
  "q_start_date (ex_req 2) = 1764547200000 \<and> q_end_date (ex_req 2) = 1764720000000
   \<and> parse_qty (q_quantity (ex_req 2)) = 2 \<and> price_cents ex_room = 1000
   \<and> map a_date (availabilities (ex_state [5, 5, 5, 5])) =
       [1764547200000, 1764633600000, 1764720000000, 1764806400000]
   \<and> map available_units (availabilities (ex_state [5, 5, 5, 5])) = [5, 5, 5, 5]
   \<and> fst (post_booking (ex_cfg False) ex_env (ex_req 2) (ex_state [5, 5, 5, 5])) = Created ex_booking
   \<and> map available_units (availabilities (snd (post_booking (ex_cfg False) ex_env (ex_req 2)
         (ex_state [5, 5, 5, 5])))) = [3, 3, 3, 5]
   \<and> total_price_cents ex_booking = Fin (1000 * 3 * 2)
   \<and> nights ex_booking = 2"
proof -
  have request: "q_start_date (ex_req 2) = 1764547200000 \<and> q_end_date (ex_req 2) = 1764720000000
      \<and> parse_qty (q_quantity (ex_req 2)) = 2 \<and> price_cents ex_room = 1000"
    by (simp add: ex_defs parse_qty_def)
  have before: "map a_date (availabilities (ex_state [5, 5, 5, 5])) =
       [1764547200000, 1764633600000, 1764720000000, 1764806400000]"
    by (simp add: ex_defs)
  have answer: "total_price_cents ex_booking = Fin (1000 * 3 * 2) \<and> nights ex_booking = 2"
    by (simp add: ex_booking_def nights_def ex_defs)
  show ?thesis
    using request before answer ex_post_booking_created ex_post_booking_units units_ex_state
    by simp
qed

section \<open>C2: an attempt that fails on a later day\<close>

text \<open>
  C2 as stated (the days before the failing one are restored) holds only when the
  handler runs in a transaction: without a session the \<open>409\<close> branch returns with no
  compensation.

  C2, amended: when the booking route answers that day \<open>d\<close> lacks availability, no
  booking is stored, no record of day \<open>d\<close> has changed, and the range splits as
  \<open>pre @ d # post\<close> where every day of \<open>pre\<close> had enough units; with transactions
  supported the availability collection is what it was before the attempt, and without
  them exactly the records of the room on the days of \<open>pre\<close> stay decremented by the
  quantity.
\<close>

theorem failed_attempt_effect:
  assumes "post_booking cfg e req s = (Conflict d, s')"
      and "unique_keys (availabilities s)"
  shows "bookings s' = bookings s
     \<and> (\<exists>pre post. getDateRange (tz cfg) (q_start_date req) (q_end_date req) = pre @ d # post
          \<and> d \<notin> set pre
          \<and> (\<forall>x \<in> set pre. has_units (q_room_id req) x (parse_qty (q_quantity req)) (availabilities s))
          \<and> \<not> has_units (q_room_id req) d (parse_qty (q_quantity req)) (availabilities s)
          \<and> availabilities s' =
              (if transactionsSupported cfg then availabilities s
               else map (dec_days (q_room_id req) (parse_qty (q_quantity req)) (set pre))
                      (availabilities s))
          \<and> (\<forall>a \<in> set (availabilities s). a_date a = d \<longrightarrow> a \<in> set (availabilities s')))"
proof -
  let ?days = "getDateRange (tz cfg) (q_start_date req) (q_end_date req)"
  let ?qty = "parse_qty (q_quantity req)"
  have h: "booking_handler cfg e req s = (Conflict d, s')" and cq: "check_quantity req = None"
    using post_booking_cases[OF assms(1)] by auto
  obtain s1 s2 where s1def: "s1 = s\<lparr>redis := snd (acquireLock (t_in e) (redis s)
        (''lock:room:'' @ q_room_id req) (token e) (lockTimeout cfg))\<rparr>"
    and t: "booking_try cfg e req s1 = (Returned (Conflict d), s2)"
    and av: "availabilities s' = availabilities (abortTransaction cfg s1 s2)"
    and bk: "bookings s' = bookings (abortTransaction cfg s1 s2)"
    using booking_handler_conflict[OF h] by blast
  have s1: "availabilities s1 = availabilities s" "bookings s1 = bookings s"
    by (simp_all add: s1def)
  have loop: "day_loop (q_room_id req) ?qty ?days (availabilities s) = (Some d, availabilities s2)"
    and b2: "bookings s2 = bookings s"
    using booking_try_conflict[OF t] s1 by (simp_all add: getDateRange_normalized)
  have bookings: "bookings s' = bookings s" using bk b2 s1 by (simp add: abortTransaction_def)
  obtain pre post where p: "?days = pre @ d # post"
    "availabilities s2 = map (dec_days (q_room_id req) ?qty (set pre)) (availabilities s)"
    "\<forall>x \<in> set pre. has_units (q_room_id req) x ?qty (availabilities s)"
    "\<not> has_units (q_room_id req) d ?qty (availabilities s)"
    using day_loop_result[OF assms(2) getDateRange_distinct, where rid = "q_room_id req"
          and qty = ?qty and z1 = "tz cfg" and s1 = "q_start_date req" and e1 = "q_end_date req"]
      loop by auto
  have dn: "d \<notin> set pre"
    using getDateRange_distinct[of "tz cfg" "q_start_date req" "q_end_date req"] p(1) by simp
  have avs: "availabilities s' =
              (if transactionsSupported cfg then availabilities s
               else map (dec_days (q_room_id req) ?qty (set pre)) (availabilities s))"
    using av p(2) s1 by (simp add: abortTransaction_def)
  have keep: "\<forall>a \<in> set (availabilities s). a_date a = d \<longrightarrow> a \<in> set (availabilities s')"
  proof (intro ballI impI)
    fix a assume a: "a \<in> set (availabilities s)" "a_date a = d"
    then have "dec_days (q_room_id req) ?qty (set pre) a = a" using dn by (simp add: dec_days_untouched)
    then show "a \<in> set (availabilities s')" using a(1) avs by (auto simp: image_iff intro: bexI[of _ a])
  qed
  show ?thesis using bookings p(1,3,4) dn avs keep by blast
qed

theorem failed_attempt_effect_witness:
  "unique_keys (availabilities (ex_state [5, 1, 5, 5]))
   \<and> fst (post_booking (ex_cfg True) ex_env (ex_req 2) (ex_state [5, 1, 5, 5])) = Conflict (ex_day 1)
   \<and> transactionsSupported (ex_cfg True)
   \<and> bookings (snd (post_booking (ex_cfg True) ex_env (ex_req 2) (ex_state [5, 1, 5, 5]))) = []
   \<and> availabilities (snd (post_booking (ex_cfg True) ex_env (ex_req 2) (ex_state [5, 1, 5, 5]))) =
       availabilities (ex_state [5, 1, 5, 5])"
proof -
  let ?run = "post_booking (ex_cfg True) ex_env (ex_req 2) (ex_state [5, 1, 5, 5])"
  have f: "fst ?run = Conflict (ex_day 1)" by (simp add: ex_defs run_defs)
  then have h: "?run = (Conflict (ex_day 1), snd ?run)" by (simp add: prod_eq_iff)
  have u: "unique_keys (availabilities (ex_state [5, 1, 5, 5]))" by (rule ex_unique)
  have t: "transactionsSupported (ex_cfg True)" "bookings (ex_state [5, 1, 5, 5]) = []"
    by (simp_all add: ex_cfg_def ex_state_def)
  show ?thesis using failed_attempt_effect[OF h u] f u t by auto
qed

text \<open>
  Without transactions: 2025-12-02 has one unit, two are asked for; 2025-12-01 stays at
  three units of five after the \<open>409\<close>.
\<close>

theorem earlier_days_stay_decremented:
  "fst (post_booking (ex_cfg False) ex_env (ex_req 2) (ex_state [5, 1, 5, 5])) = Conflict 1764633600000
   \<and> map a_date (availabilities (ex_state [5, 1, 5, 5])) =
       [1764547200000, 1764633600000, 1764720000000, 1764806400000]
   \<and> map available_units (availabilities (ex_state [5, 1, 5, 5])) = [5, 1, 5, 5]
   \<and> map available_units (availabilities (snd (post_booking (ex_cfg False) ex_env (ex_req 2)
         (ex_state [5, 1, 5, 5])))) = [3, 1, 5, 5]"
  by (simp add: ex_defs run_defs)

section \<open>C3: idempotent replay\<close>

text \<open>
  C3: a request whose \<open>Idempotency-Key\<close> has a stored (unexpired) booking id is answered
  with that id and nothing else happens: the state after the handler, bookings,
  availability, locks and all, is the state before it. The stored id is non-empty, as
  every id the handler stores is the string of an \<open>ObjectId\<close>. In particular, after a
  request with the key has created a booking, a request with the same key that arrives
  before the key expires is answered with the id of that booking.
\<close>

theorem idempotent_replay_short_circuits:
  assumes "idempotency_key req = Some k" and "k \<noteq> []"
  shows "(getIdempotencyKey (t_in e) (redis s) k = Some v \<and> v \<noteq> [] \<longrightarrow>
            booking_handler cfg e req s = (Ok_idempotent v, s)
            \<and> (validateDateRange (today e) req = None \<and> check_quantity req = None \<longrightarrow>
                 post_booking cfg e req s = (Ok_idempotent v, s)))
       \<and> (booking_handler cfg e0 req0 s0 = (Created b, s) \<and> idempotency_key req0 = Some k
            \<and> new_id e0 \<noteq> [] \<and> t_in e < t_out e0 + idempotencyTTL cfg * 1000 \<longrightarrow>
            booking_handler cfg e req s = (Ok_idempotent (b_id b), s))"
proof -
  have short: "booking_handler cfg e req s = (Ok_idempotent v, s)"
    if "getIdempotencyKey (t_in e) (redis s) k = Some v" "v \<noteq> []" for v
    using assms that by (simp add: booking_handler_def or_null_def)
  have replay: "booking_handler cfg e req s = (Ok_idempotent (b_id b), s)"
    if c: "booking_handler cfg e0 req0 s0 = (Created b, s)" and k0: "idempotency_key req0 = Some k"
      and n: "new_id e0 \<noteq> []" and t: "t_in e < t_out e0 + idempotencyTTL cfg * 1000"
  proof -
    have "or_null (idempotency_key req0) = Some k" using k0 assms(2) by (simp add: or_null_def)
    from booking_handler_created_redis[OF c this] obtain r where
      r: "redis s = releaseLock (t_out e0) (\<lambda>r. r)
                 (setIdempotencyKey (t_out e0) r k (b_id b) (idempotencyTTL cfg))
                 (''lock:room:'' @ q_room_id req0) (token e0)" and id: "b_id b = new_id e0"
      by blast
    have "getIdempotencyKey (t_in e) (redis s) k = Some (b_id b)"
      unfolding r idem_key_after_release using t by simp
    then show ?thesis using short n id by simp
  qed
  show ?thesis using short replay by (simp add: post_booking_def)
qed

theorem idempotent_replay_short_circuits_witness:
  "idempotency_key (ex_req 2) = Some ''k1'' \<and> ''k1'' \<noteq> []
   \<and> getIdempotencyKey (t_in ex_env_later) (redis ex_booked) ''k1'' = Some ''b1''
   \<and> booking_handler (ex_cfg False) ex_env (ex_req 2) (ex_state [5, 5, 5, 5]) =
       (Created ex_booking, ex_booked)
   \<and> new_id ex_env \<noteq> []
   \<and> t_in ex_env_later < t_out ex_env + idempotencyTTL (ex_cfg False) * 1000
   \<and> b_id ex_booking = ''b1''
   \<and> booking_handler (ex_cfg False) ex_env_later (ex_req 2) ex_booked = (Ok_idempotent ''b1'', ex_booked)"
proof -
  have k: "idempotency_key (ex_req 2) = Some ''k1''" "''k1'' \<noteq> []" by (simp_all add: ex_req_def)
  have c: "booking_handler (ex_cfg False) ex_env (ex_req 2) (ex_state [5, 5, 5, 5]) =
       (Created ex_booking, ex_booked)"
    using ex_booked_created by (simp add: prod_eq_iff ex_booked_def)
  have n: "new_id ex_env \<noteq> []" by (simp add: ex_env_def)
  have t: "t_in ex_env_later < t_out ex_env + idempotencyTTL (ex_cfg False) * 1000"
    by (simp add: ex_env_def ex_env_later_def ex_cfg_def)
  have i: "b_id ex_booking = ''b1''" by (simp add: ex_booking_def)
  show ?thesis
    using idempotent_replay_short_circuits[OF k, where cfg = "ex_cfg False" and e = ex_env_later
        and s = ex_booked and ?e0.0 = ex_env and ?req0.0 = "ex_req 2"
        and ?s0.0 = "ex_state [5, 5, 5, 5]" and b = ex_booking and v = "''b1''"]
      k c n t i ex_booked_idempotency
    by simp
qed

section \<open>C4: the conditional decrement\<close>

text \<open>
  C4: for the record \<open>a\<close> of a room and a date and any quantity, the conditional
  \<open>updateOne\<close> modifies a document if and only if \<open>available_units a \<ge> qty\<close>; then
  \<open>a\<close> loses exactly \<open>qty\<close> units and every other document is unchanged, and
  otherwise the whole collection is unchanged.
\<close>

theorem conditional_decrement:
  assumes "unique_keys avs" "a \<in> set avs" "a_room_id a = rid" "a_date a = d"
  shows "(fst (updateOne_dec rid d qty avs) \<noteq> 0) = (qty \<le> available_units a)
       \<and> (qty \<le> available_units a \<longrightarrow>
            updateOne_dec rid d qty avs =
              (1, map (\<lambda>x. if x = a then a\<lparr>available_units := available_units a - qty\<rparr> else x) avs))
       \<and> (\<not> qty \<le> available_units a \<longrightarrow> updateOne_dec rid d qty avs = (0, avs))"
proof -
  have key: "a_key a = (rid, d)" using assms(3,4) by (simp add: a_key_def)
  have only: "\<And>x. x \<in> set avs \<Longrightarrow> (a_key x = (rid, d)) = (x = a)"
    using assms(1,2) key by (metis unique_keys_def inj_on_eq_iff distinct_map)
  have hu: "has_units rid d qty avs = (qty \<le> available_units a)"
    using only assms(2) key by (auto simp: has_units_def)
  have m: "map (dec_days rid qty {d}) avs =
           map (\<lambda>x. if x = a then a\<lparr>available_units := available_units a - qty\<rparr> else x) avs"
  proof (rule map_cong[OF refl])
    fix x assume "x \<in> set avs"
    then show "dec_days rid qty {d} x = (if x = a then a\<lparr>available_units := available_units a - qty\<rparr> else x)"
      using only[of x] by (auto simp: dec_days_def a_key_def decrement_def)
  qed
  show ?thesis
    unfolding updateOne_dec_cases[OF assms(1)] hu m by simp
qed

theorem conditional_decrement_witness:
  "unique_keys [ex_avail 0 5, ex_avail 1 1]
   \<and> updateOne_dec ''r1'' (ex_day 0) 2 [ex_avail 0 5, ex_avail 1 1] = (1, [ex_avail 0 3, ex_avail 1 1])
   \<and> updateOne_dec ''r1'' (ex_day 1) 2 [ex_avail 0 5, ex_avail 1 1] = (0, [ex_avail 0 5, ex_avail 1 1])"
proof -
  have u: "unique_keys [ex_avail 0 5, ex_avail 1 1]"
    by (simp add: unique_keys_def a_key_def ex_defs)
  have m0: "ex_avail 0 5 \<in> set [ex_avail 0 5, ex_avail 1 1]"
    and m1: "ex_avail 1 1 \<in> set [ex_avail 0 5, ex_avail 1 1]" by simp_all
  have r: "a_room_id (ex_avail 0 5) = ''r1''" "a_room_id (ex_avail 1 1) = ''r1''"
    and d: "a_date (ex_avail 0 5) = ex_day 0" "a_date (ex_avail 1 1) = ex_day 1"
    by (simp_all add: ex_avail_def)
  show ?thesis
    using u conditional_decrement[OF u m0 r(1) d(1), of 2] conditional_decrement[OF u m1 r(2) d(2), of 2]
    by (simp add: ex_defs)
qed

section \<open>C5: the invariant of the availability records\<close>

text \<open>
  C5: from a state in which every availability record has
  \<open>0 \<le> available_units \<le> total_units\<close>, the records keep these bounds after each
  operation of any sequence of booking requests, cancellations and searches.
\<close>

theorem units_stay_within_bounds:
  assumes "units_ok (availabilities s)"
  shows "\<forall>n \<le> length ops. \<forall>a \<in> set (availabilities (run_ops cfg s (take n ops))).
           0 \<le> available_units a \<and> available_units a \<le> total_units a"
  using run_ops_units_ok[OF assms] by (simp add: units_ok_def)

theorem units_stay_within_bounds_witness:
  "units_ok (availabilities (ex_state [5, 1, 5, 5]))
   \<and> units_ok (availabilities (run_ops (ex_cfg False) (ex_state [5, 1, 5, 5])
          (take 1 [Book ex_env (ex_req 2), Search (ex_day 0) (ex_day 3), Book ex_env (ex_req 0)])))
   \<and> units_ok (availabilities (run_ops (ex_cfg False) (ex_state [5, 1, 5, 5])
          (take 2 [Book ex_env (ex_req 2), Search (ex_day 0) (ex_day 3), Book ex_env (ex_req 0)])))
   \<and> units_ok (availabilities (run_ops (ex_cfg False) (ex_state [5, 1, 5, 5])
          (take 3 [Book ex_env (ex_req 2), Search (ex_day 0) (ex_day 3), Book ex_env (ex_req 0)])))
   \<and> map available_units (availabilities (run_ops (ex_cfg False) (ex_state [5, 1, 5, 5])
          [Book ex_env (ex_req 2), Search (ex_day 0) (ex_day 3), Book ex_env (ex_req 0)])) = [1, 1, 5, 5]"
proof -
  let ?ops = "[Book ex_env (ex_req 2), Search (ex_day 0) (ex_day 3), Book ex_env (ex_req 0)]"
  have u: "units_ok (availabilities (ex_state [5, 1, 5, 5]))"
    by (simp add: units_ok_def ex_defs)
  have r: "map available_units (availabilities (run_ops (ex_cfg False) (ex_state [5, 1, 5, 5]) ?ops))
             = [1, 1, 5, 5]"
    by (simp add: run_ops_def apply_op_def ex_defs run_defs)
  have b: "\<And>n. n \<le> length ?ops \<Longrightarrow>
             units_ok (availabilities (run_ops (ex_cfg False) (ex_state [5, 1, 5, 5]) (take n ?ops)))"
    using units_stay_within_bounds[OF u, of ?ops "ex_cfg False"] unfolding units_ok_def by blast
  show ?thesis using u r b[of 1] b[of 2] b[of 3] by simp
qed

section \<open>C6: what the search returns\<close>

text \<open>
  C6 as stated (a day with no units left makes the minimum zero and excludes the room)
  does not hold: the first \<open>$match\<close> stage keeps only records with
  \<open>available_units > 0\<close>, so such a day never enters the minimum.

  C6, amended: the search returns exactly the active rooms that have at least one
  availability record with \<open>available_units > 0\<close> in the inclusive range of the query;
  the \<open>available_units\<close> reported for a room is the minimum over those records, and
  \<open>available_days\<close> is their number.
\<close>

theorem search_rooms_result:
  "set (search_rooms startQ endQ s) =
     {project (r, Min (available_units ` set (positive_days startQ endQ (r_id r) (availabilities s))),
               length (positive_days startQ endQ (r_id r) (availabilities s))) | r.
        r \<in> set (rooms s) \<and> is_active r
        \<and> positive_days startQ endQ (r_id r) (availabilities s) \<noteq> []}"
proof -
  have "set (search_rooms startQ endQ s) =
        project ` {x \<in> set (lookup_unwind (rooms s)
           (filter (\<lambda>(rid, m, n). 0 < m)
             (group_by_room (match_range (normalizeDate startQ) (normalizeDate endQ) (availabilities s))))).
           is_active (fst x)}"
    by (auto simp: search_rooms_def Let_def)
  also have "\<dots> = {project (r, Min (available_units ` set (positive_days startQ endQ (r_id r) (availabilities s))),
               length (positive_days startQ endQ (r_id r) (availabilities s))) | r.
        r \<in> set (rooms s) \<and> is_active r
        \<and> positive_days startQ endQ (r_id r) (availabilities s) \<noteq> []}"
    unfolding set_lookup_unwind grouped_set by auto
  finally show ?thesis .
qed

theorem search_rooms_result_witness:
  "project (ex_room, 3, 1) \<in>
     {project (r, Min (available_units ` set (positive_days (ex_day 0) (ex_day 1) (r_id r)
                   (availabilities (ex_state [0, 3, 5, 5])))),
               length (positive_days (ex_day 0) (ex_day 1) (r_id r)
                   (availabilities (ex_state [0, 3, 5, 5])))) | r.
        r \<in> set (rooms (ex_state [0, 3, 5, 5])) \<and> is_active r
        \<and> positive_days (ex_day 0) (ex_day 1) (r_id r) (availabilities (ex_state [0, 3, 5, 5])) \<noteq> []}"
proof -
  have "project (ex_room, 3, 1) \<in> set (search_rooms (ex_day 0) (ex_day 1) (ex_state [0, 3, 5, 5]))"
    by (simp add: ex_search_rooms)
  then show ?thesis
    unfolding search_rooms_result[of "ex_day 0" "ex_day 1" "ex_state [0, 3, 5, 5]"] .
qed

text \<open>
  Room \<open>r1\<close> has no units on 2025-12-01 and three on 2025-12-02: a search over the two
  days returns it with \<open>available_units = 3\<close> and one available day.
\<close>

theorem room_with_sold_out_day_is_returned:
  "map available_units (availabilities (ex_state [0, 3, 5, 5])) = [0, 3, 5, 5]
   \<and> map sr_id (search_rooms (ex_day 0) (ex_day 1) (ex_state [0, 3, 5, 5])) = [''r1'']
   \<and> map sr_available_units (search_rooms (ex_day 0) (ex_day 1) (ex_state [0, 3, 5, 5])) = [3]
   \<and> map sr_available_days (search_rooms (ex_day 0) (ex_day 1) (ex_state [0, 3, 5, 5])) = [1]"
  by (simp add: ex_search_rooms project_def ex_room_def units_ex_state)

section \<open>C7: cancellation\<close>

text \<open>
  C7 says that cancelling a confirmed booking gives the booking's quantity back to the
  days it took. The \<open>cancel\<close> method marks the booking cancelled, with the reason and the
  time, and refuses a booking that is already cancelled, but it writes no availability
  record: the booking of two units from 2025-12-01 to 2025-12-03 left three units of five
  on its days, and after \<open>cancel\<close> they are still three.
\<close>

theorem cancel_leaves_ledger_decremented:
  "fst (booking_handler (ex_cfg False) ex_env (ex_req 2) (ex_state [5, 5, 5, 5])) = Created ex_booking
   \<and> map available_units (availabilities (ex_state [5, 5, 5, 5])) = [5, 5, 5, 5]
   \<and> bookings ex_booked = [ex_booking]
   \<and> map available_units (availabilities ex_booked) = [3, 3, 3, 5]
   \<and> fst (cancel (Some ''user request'') 1764600000000 ex_booking ex_booked) =
       Inr (ex_booking\<lparr>status := Cancelled, cancellation_reason := Some ''user request'',
                        cancelled_at := Some 1764600000000\<rparr>)
   \<and> map available_units
        (availabilities (snd (cancel (Some ''user request'') 1764600000000 ex_booking ex_booked))) =
       [3, 3, 3, 5]
   \<and> fst (cancel (Some ''again'') 1764600001000
            (ex_booking\<lparr>status := Cancelled, cancellation_reason := Some ''user request'',
                          cancelled_at := Some 1764600000000\<rparr>)
            (snd (cancel (Some ''user request'') 1764600000000 ex_booking ex_booked))) =
       Inl (Error ''Booking is already cancelled'')"
  by (simp add: ex_cancel ex_cancel_again ex_booked_created ex_booked_bookings
        ex_booked_availabilities ex_avail_def units_ex_state)

section \<open>C8: the lock\<close>

text \<open>
  C8 says that a release deletes the stored lock only when the stored token is the
  caller's, so that a holder whose lease has run out cannot delete the lock of the next
  holder. \<open>releaseLock\<close> reads the token with \<open>GET\<close> and deletes with a later \<open>DEL\<close>;
  the lease can end, and another client acquire, between the two.

  C8, at that interleaving: client A acquires the lock of room \<open>r1\<close> at time 100 with a
  lease of 10000. At 10099 the lease still runs: A's \<open>GET\<close> reads A's token and client B
  is refused. At 10100 the lease is over and B acquires. A's \<open>DEL\<close> then removes B's lock:
  at 10101 nothing is stored under the key and a third client acquires it, while B's lease
  runs until 20100. Had A's release started after B's acquisition, it would have changed
  nothing.
\<close>

theorem release_deletes_next_holders_lock:
  "fst (acquireLock 100 Map.empty ''lock:room:r1'' ''tokA'' 10000)
   \<and> redis_get 10099 ex_locked ''lock:room:r1'' = Some ''tokA''
   \<and> \<not> fst (acquireLock 10099 ex_locked ''lock:room:r1'' ''tokB'' 10000)
   \<and> fst (acquireLock 10100 ex_locked ''lock:room:r1'' ''tokB'' 10000)
   \<and> redis_get 10101 (ex_takeover ex_locked) ''lock:room:r1'' = Some ''tokB''
   \<and> redis_get 10101 (releaseLock 10099 ex_takeover ex_locked ''lock:room:r1'' ''tokA'')
        ''lock:room:r1'' = None
   \<and> fst (acquireLock 10101 (releaseLock 10099 ex_takeover ex_locked ''lock:room:r1'' ''tokA'')
        ''lock:room:r1'' ''tokC'' 10000)
   \<and> releaseLock 10101 (\<lambda>r. r) (ex_takeover ex_locked) ''lock:room:r1'' ''tokA'' = ex_takeover ex_locked"
proof -
  have held: "ex_locked ''lock:room:r1'' = Some (''tokA'', 10100)"
    by (simp add: ex_locked_def acquireLock_store)
  have taken: "ex_takeover ex_locked ''lock:room:r1'' = Some (''tokB'', 20100)"
    by (simp add: ex_takeover_def acquireLock_store held)
  have del: "releaseLock 10099 ex_takeover ex_locked ''lock:room:r1'' ''tokA'' ''lock:room:r1'' = None"
    by (simp add: releaseLock_def redis_get_def held Let_def)
  have noop: "releaseLock 10101 (\<lambda>r. r) (ex_takeover ex_locked) ''lock:room:r1'' ''tokA''
                = ex_takeover ex_locked"
    by (simp add: releaseLock_alone taken)
  show ?thesis
    using noop by (simp add: acquireLock_store redis_get_def held taken del)
qed

section \<open>C9: two attempts on one room\<close>





section \<open>C10: a request whose end date is its start date\<close>

text \<open>
  C10: when \<open>end_date\<close> equals \<open>start_date\<close>, \<open>validateDateRange\<close> lets the request
  pass (unless the start is in the past), the range is the single day of the start, and no
  booking document with these dates passes the \<open>pre('save')\<close> hook, so the route never
  answers with a created booking. When the request is valid, has no stored idempotent
  answer, finds the room's lock free, its contact e-mail in order and the room, then: if
  the day has a record with enough units, the day is decremented, the route answers
  \<open>500\<close> (or \<open>400\<close> with the validators' messages when the schema validators refuse the
  document, which run before the hook), no booking is stored, and the decrement stays
  unless a transaction is aborted; if the day has no such record the route answers
  \<open>409\<close> for that day and nothing is decremented. Conversely, whenever the route answers
  \<open>500\<close> the day had enough units and was decremented before the hook threw.
\<close>

theorem same_day_request:
  assumes "q_end_date req = q_start_date req"
  shows "(today e \<le> q_start_date req \<longrightarrow> validateDateRange (today e) req = None)
     \<and> getDateRange (tz cfg) (q_start_date req) (q_end_date req) = [normalizeDate (q_start_date req)]
     \<and> (\<forall>doc. start_date doc = normalizeDate (q_start_date req)
              \<and> end_date doc = normalizeDate (q_end_date req) \<longrightarrow>
            booking_pre_save doc = Some (Error ''End date must be after start date'')
            \<and> booking_save_checks doc \<noteq> None)
     \<and> (\<forall>b. fst (post_booking cfg e req s) \<noteq> Created b)
     \<and> (today e \<le> q_start_date req \<and> check_quantity req = None
        \<and> stored_answer e req s = None
        \<and> redis_get (t_in e) (redis s) (''lock:room:'' @ q_room_id req) = None
        \<and> contact_ok req
        \<and> find (\<lambda>r. r_id r = q_room_id req \<and> is_active r) (rooms s) = Some room
        \<and> unique_keys (availabilities s) \<longrightarrow>
          (if has_units (q_room_id req) (normalizeDate (q_start_date req))
                (parse_qty (q_quantity req)) (availabilities s)
           then fst (post_booking cfg e req s) =
                  (if booking_validate (new_booking cfg e req room) = [] then Server_error
                   else Validation_failed (booking_validate (new_booking cfg e req room)))
                \<and> availabilities (snd (post_booking cfg e req s)) =
                    (if transactionsSupported cfg then availabilities s
                     else map (dec_days (q_room_id req) (parse_qty (q_quantity req))
                                 {normalizeDate (q_start_date req)}) (availabilities s))
           else fst (post_booking cfg e req s) = Conflict (normalizeDate (q_start_date req))
                \<and> availabilities (snd (post_booking cfg e req s)) = availabilities s)
          \<and> bookings (snd (post_booking cfg e req s)) = bookings s)
     \<and> (unique_keys (availabilities s) \<and> post_booking cfg e req s = (Server_error, s') \<longrightarrow>
          has_units (q_room_id req) (normalizeDate (q_start_date req)) (parse_qty (q_quantity req))
            (availabilities s)
          \<and> bookings s' = bookings s
          \<and> availabilities s' =
              (if transactionsSupported cfg then availabilities s
               else map (dec_days (q_room_id req) (parse_qty (q_quantity req))
                           {normalizeDate (q_start_date req)}) (availabilities s)))"
proof -
  let ?day = "normalizeDate (q_start_date req)"
  let ?qty = "parse_qty (q_quantity req)"
  let ?rid = "q_room_id req"
  let ?avs = "availabilities s"
  have A: "today e \<le> q_start_date req \<longrightarrow> validateDateRange (today e) req = None"
    using assms msPerDay_pos by (simp add: validateDateRange_def)
  have B: "getDateRange (tz cfg) (q_start_date req) (q_end_date req) = [?day]"
    using assms by (simp add: getDateRange_same_day)
  have C: "\<forall>doc. start_date doc = ?day \<and> end_date doc = normalizeDate (q_end_date req) \<longrightarrow>
            booking_pre_save doc = Some (Error ''End date must be after start date'')
            \<and> booking_save_checks doc \<noteq> None"
    using assms by (auto simp: booking_pre_save_def booking_save_checks_def split: option.splits)
  have D: "\<forall>b. fst (post_booking cfg e req s) \<noteq> Created b"
  proof (intro allI notI)
    fix b assume f: "fst (post_booking cfg e req s) = Created b"
    then have "post_booking cfg e req s = (Created b, snd (post_booking cfg e req s))"
      by (simp add: prod_eq_iff)
    from post_booking_cases[OF this]
    have h: "booking_handler cfg e req s = (Created b, snd (post_booking cfg e req s))" by auto
    from booking_handler_created[OF h] obtain s1 s2 where "booking_try cfg e req s1 = (Committed b, s2)"
      by blast
    from booking_try_committed[OF this]
    have "booking_save_checks b = None" "start_date b = ?day" "end_date b = normalizeDate (q_end_date req)"
      by auto
    then show False using C by blast
  qed
  have E: "(if has_units ?rid ?day ?qty ?avs
           then fst (post_booking cfg e req s) =
                  (if booking_validate (new_booking cfg e req room) = [] then Server_error
                   else Validation_failed (booking_validate (new_booking cfg e req room)))
                \<and> availabilities (snd (post_booking cfg e req s)) =
                    (if transactionsSupported cfg then ?avs
                     else map (dec_days ?rid ?qty {?day}) ?avs)
           else fst (post_booking cfg e req s) = Conflict ?day
                \<and> availabilities (snd (post_booking cfg e req s)) = ?avs)
          \<and> bookings (snd (post_booking cfg e req s)) = bookings s"
    if v: "today e \<le> q_start_date req" and cq: "check_quantity req = None"
      and st: "stored_answer e req s = None"
      and lk: "redis_get (t_in e) (redis s) (''lock:room:'' @ ?rid) = None"
      and co: "contact_ok req"
      and rm: "find (\<lambda>r. r_id r = ?rid \<and> is_active r) (rooms s) = Some room"
      and u: "unique_keys ?avs"
  proof -
    let ?s1 = "with_lock cfg e req s"
    have route: "post_booking cfg e req s = booking_handler cfg e req s"
      using A v cq by (simp add: post_booking_def)
    have step: "updateOne_dec ?rid ?day ?qty ?avs =
        (if has_units ?rid ?day ?qty ?avs then (1, map (dec_days ?rid ?qty {?day}) ?avs) else (0, ?avs))"
      by (rule updateOne_dec_cases[OF u])
    have rm1: "find (\<lambda>r. r_id r = ?rid \<and> is_active r) (rooms ?s1) = Some room"
      using rm by (simp add: with_lock_fields)
    show ?thesis
    proof (cases "has_units ?rid ?day ?qty ?avs")
      case True
      then have loop: "day_loop ?rid ?qty (getDateRange (tz cfg) (q_start_date req) (q_end_date req))
                   (availabilities ?s1) = (None, map (dec_days ?rid ?qty {?day}) ?avs)"
        using step by (simp add: B with_lock_fields)
      let ?x = "if booking_validate (new_booking cfg e req room) = []
                 then Error ''End date must be after start date''
                 else ValidationError (booking_validate (new_booking cfg e req room))"
      have t: "booking_try cfg e req ?s1 =
                 (Threw ?x, ?s1\<lparr>availabilities := map (dec_days ?rid ?qty {?day}) ?avs\<rparr>)"
        using booking_try_after_loop[OF co rm1 loop, of e] same_day_save_checks[OF assms, of cfg e room]
        by simp
      show ?thesis
        using booking_handler_after_lock[OF st lk t] True
        by (simp add: route catch_response_def with_lock_fields)
    next
      case False
      then have loop: "day_loop ?rid ?qty (getDateRange (tz cfg) (q_start_date req) (q_end_date req))
                   (availabilities ?s1) = (Some ?day, ?avs)"
        using step by (simp add: B with_lock_fields)
      have t: "booking_try cfg e req ?s1 = (Returned (Conflict ?day), ?s1\<lparr>availabilities := ?avs\<rparr>)"
        using booking_try_after_loop[OF co rm1 loop, of e] by simp
      show ?thesis
        using booking_handler_after_lock[OF st lk t] False
        by (simp add: route with_lock_fields)
    qed
  qed
  have F: "has_units ?rid ?day ?qty ?avs \<and> bookings s' = bookings s
          \<and> availabilities s' =
              (if transactionsSupported cfg then ?avs
               else map (dec_days ?rid ?qty {?day}) ?avs)"
    if u: "unique_keys ?avs" and p: "post_booking cfg e req s = (Server_error, s')"
  proof -
    have h: "booking_handler cfg e req s = (Server_error, s')"
      using post_booking_cases[OF p] by auto
    obtain s1 s2 x where s1def: "s1 = s\<lparr>redis := snd (acquireLock (t_in e) (redis s)
        (''lock:room:'' @ q_room_id req) (token e) (lockTimeout cfg))\<rparr>"
      and t: "booking_try cfg e req s1 = (Threw x, s2)"
      and av: "availabilities s' = availabilities (abortTransaction cfg s1 s2)"
      and bk: "bookings s' = bookings (abortTransaction cfg s1 s2)"
      using booking_handler_server_error[OF h] by blast
    have s1: "availabilities s1 = ?avs" "bookings s1 = bookings s"
      by (simp_all add: s1def)
    have loop: "day_loop ?rid ?qty [?day] ?avs = (None, availabilities s2)"
      and b2: "bookings s2 = bookings s"
      using booking_try_threw[OF t] s1 B by (simp_all add: getDateRange_normalized)
    have "distinct [?day]" by simp
    from day_loop_result[OF u this, of ?rid ?qty] loop
    have r: "availabilities s2 = map (dec_days ?rid ?qty {?day}) ?avs"
      "has_units ?rid ?day ?qty ?avs"
      by simp_all
    show ?thesis using r av bk b2 s1 by (simp add: abortTransaction_def)
  qed
  show ?thesis using A B C D E F by blast
qed

theorem same_day_request_witness:
  "q_end_date (ex_req 0) = q_start_date (ex_req 0)
   \<and> today ex_env \<le> q_start_date (ex_req 0)
   \<and> check_quantity (ex_req 0) = None
   \<and> stored_answer ex_env (ex_req 0) (ex_state [5, 5, 5, 5]) = None
   \<and> redis_get (t_in ex_env) (redis (ex_state [5, 5, 5, 5])) (''lock:room:'' @ q_room_id (ex_req 0)) = None
   \<and> contact_ok (ex_req 0)
   \<and> find (\<lambda>r. r_id r = q_room_id (ex_req 0) \<and> is_active r) (rooms (ex_state [5, 5, 5, 5])) = Some ex_room
   \<and> unique_keys (availabilities (ex_state [5, 5, 5, 5]))
   \<and> has_units ''r1'' (ex_day 0) 2 (availabilities (ex_state [5, 5, 5, 5]))
   \<and> booking_validate (new_booking (ex_cfg False) ex_env (ex_req 0) ex_room) = []
   \<and> validateDateRange (today ex_env) (ex_req 0) = None
   \<and> getDateRange utc (q_start_date (ex_req 0)) (q_end_date (ex_req 0)) = [ex_day 0]
   \<and> fst (post_booking (ex_cfg False) ex_env (ex_req 0) (ex_state [5, 5, 5, 5])) = Server_error
   \<and> bookings (snd (post_booking (ex_cfg False) ex_env (ex_req 0) (ex_state [5, 5, 5, 5]))) = []
   \<and> availabilities (snd (post_booking (ex_cfg False) ex_env (ex_req 0) (ex_state [5, 5, 5, 5]))) =
       map (dec_days ''r1'' 2 {ex_day 0}) (availabilities (ex_state [5, 5, 5, 5]))
   \<and> map available_units (map (dec_days ''r1'' 2 {ex_day 0}) (availabilities (ex_state [5, 5, 5, 5])))
       = [3, 5, 5, 5]
   \<and> availabilities (snd (post_booking (ex_cfg True) ex_env (ex_req 0) (ex_state [5, 5, 5, 5]))) =
       availabilities (ex_state [5, 5, 5, 5])
   \<and> \<not> has_units ''r1'' (ex_day 0) 2 (availabilities (ex_state [1, 5, 5, 5]))
   \<and> fst (post_booking (ex_cfg False) ex_env (ex_req 0) (ex_state [1, 5, 5, 5])) = Conflict (ex_day 0)
   \<and> availabilities (snd (post_booking (ex_cfg False) ex_env (ex_req 0) (ex_state [1, 5, 5, 5]))) =
       availabilities (ex_state [1, 5, 5, 5])"
proof -
  have a: "q_end_date (ex_req 0) = q_start_date (ex_req 0)" by (simp add: ex_req_def)
  have v: "today ex_env \<le> q_start_date (ex_req 0)" by (simp add: ex_defs)
  have cq: "check_quantity (ex_req 0) = None"
    by (simp add: check_quantity_def parse_qty_def ex_req_def)
  have st: "stored_answer ex_env (ex_req 0) (ex_state us) = None" for us
    by (simp add: stored_answer_def or_null_def getIdempotencyKey_def redis_get_def ex_req_def
          ex_state_def)
  have lk: "redis_get (t_in ex_env) (redis (ex_state us)) (''lock:room:'' @ q_room_id (ex_req 0)) = None" for us
    by (simp add: redis_get_def ex_state_def)
  have co: "contact_ok (ex_req 0)" by (simp add: contact_ok_def or_null_def ex_req_def)
  have rm: "find (\<lambda>r. r_id r = q_room_id (ex_req 0) \<and> is_active r) (rooms (ex_state us)) = Some ex_room" for us
    by (simp add: ex_state_def ex_room_def ex_req_def)
  have hu: "has_units ''r1'' (ex_day 0) 2 (availabilities (ex_state [5, 5, 5, 5]))"
    by (simp add: has_units_def a_key_def ex_defs)
  have nu: "\<not> has_units ''r1'' (ex_day 0) 2 (availabilities (ex_state [1, 5, 5, 5]))"
    by (simp add: has_units_def a_key_def ex_defs)
  have bv: "booking_validate (new_booking cfg ex_env (ex_req 0) ex_room) = []" for cfg
    by (simp add: booking_validate_def new_booking_def total_price_def validate_quantity_def
          validate_total_price_def validate_cancellation_reason_def validate_notes_def
          too_long_def parse_qty_def or_null_def to_double_small getDateRange_same_day
          ex_req_def ex_room_def)
  have m: "map available_units (map (dec_days ''r1'' 2 {ex_day 0}) (availabilities (ex_state [5, 5, 5, 5])))
       = [3, 5, 5, 5]"
    by (simp add: dec_days_def decrement_def ex_defs)
  have c: "q_room_id (ex_req 0) = ''r1''" "parse_qty (q_quantity (ex_req 0)) = 2"
    "normalizeDate (q_start_date (ex_req 0)) = ex_day 0"
    "bookings (ex_state us) = []" "tz (ex_cfg tx) = utc" "transactionsSupported (ex_cfg tx) = tx" for us tx
    by (simp_all add: ex_defs parse_qty_def normalizeDate_def)
  have B: "getDateRange utc (q_start_date (ex_req 0)) (q_end_date (ex_req 0)) = [ex_day 0]"
    using same_day_request[OF a, where cfg = "ex_cfg False", THEN conjunct2, THEN conjunct1]
    by (simp only: c)
  have A: "validateDateRange (today ex_env) (ex_req 0) = None"
    using same_day_request[OF a, where e = ex_env, THEN conjunct1] v by simp
  have p: "today ex_env \<le> q_start_date (ex_req 0) \<and> check_quantity (ex_req 0) = None
        \<and> stored_answer ex_env (ex_req 0) (ex_state [x, 5, 5, 5]) = None
        \<and> redis_get (t_in ex_env) (redis (ex_state [x, 5, 5, 5])) (''lock:room:'' @ q_room_id (ex_req 0)) = None
        \<and> contact_ok (ex_req 0)
        \<and> find (\<lambda>r. r_id r = q_room_id (ex_req 0) \<and> is_active r) (rooms (ex_state [x, 5, 5, 5])) = Some ex_room
        \<and> unique_keys (availabilities (ex_state [x, 5, 5, 5]))" for x
    using v cq st lk co rm ex_unique by simp
  note E = same_day_request[OF a, THEN conjunct2, THEN conjunct2, THEN conjunct2, THEN conjunct2,
      THEN conjunct1, rule_format, OF p]
  have r1: "fst (post_booking (ex_cfg False) ex_env (ex_req 0) (ex_state [5, 5, 5, 5])) = Server_error
     \<and> bookings (snd (post_booking (ex_cfg False) ex_env (ex_req 0) (ex_state [5, 5, 5, 5]))) = []
     \<and> availabilities (snd (post_booking (ex_cfg False) ex_env (ex_req 0) (ex_state [5, 5, 5, 5]))) =
       map (dec_days ''r1'' 2 {ex_day 0}) (availabilities (ex_state [5, 5, 5, 5]))"
    using E[where cfg = "ex_cfg False" and x1 = 5] hu bv unfolding c by simp
  have r2: "availabilities (snd (post_booking (ex_cfg True) ex_env (ex_req 0) (ex_state [5, 5, 5, 5]))) =
       availabilities (ex_state [5, 5, 5, 5])"
    using E[where cfg = "ex_cfg True" and x1 = 5] hu unfolding c by simp
  have r3: "fst (post_booking (ex_cfg False) ex_env (ex_req 0) (ex_state [1, 5, 5, 5])) = Conflict (ex_day 0)
     \<and> availabilities (snd (post_booking (ex_cfg False) ex_env (ex_req 0) (ex_state [1, 5, 5, 5]))) =
       availabilities (ex_state [1, 5, 5, 5])"
    using E[where cfg = "ex_cfg False" and x1 = 1] nu unfolding c by simp
  show ?thesis
    using a v cq st lk co rm hu nu bv m ex_unique A B r1 r2 r3 by simp
qed

end
